theory Spec2Isabelle
  imports Complex_Main "HOL-Library.Sublist"
begin

section \<open>Data model of \<open>main.py\<close>\<close>

text \<open>
  The service turns a prompt into a route. Everything outside the process (the chat
  completion, the geocoding, place search, place details and directions endpoints) is a
  parameter of the model: a record \<open>env\<close> of functions from a request to the decoded
  response. Each request that is sent is appended to a trace of events, so that statements
  about which collaborator is called, and with what, can be made.

  Python exceptions are values of \<open>py_error\<close>. Coordinates are the JSON numbers of the
  responses; the code never computes with them, it only stores and forwards them.

  The extractor's output is modelled twice. The record \<open>parsed\<close> is the output with its
  documented types, and \<open>process_user_prompt\<close> is the pipeline on it. The datatype \<open>json\<close>
  is whatever \<open>json.loads\<close> may return, and \<open>process_user_prompt_json\<close> is the pipeline on
  that, with the exceptions that Python raises on a value of another shape; on output of
  the documented shape the two runs are the same (\<open>process_user_prompt_json_decode\<close>).
\<close>

datatype py_error = KeyError string | IndexError | AttributeError | TypeError

type_synonym coord = "real \<times> real"

text \<open>One entry of the extractor's \<open>waypoints\<close> array: a JSON object with string fields.\<close>

type_synonym wp_dict = "string \<rightharpoonup> string"

text \<open>
  The object decoded from the chat completion, with values of the documented types. Each
  top-level key may be absent: the code reads all three with \<open>parsed.get(key, default)\<close>.
\<close>

record parsed =
  p_waypoints :: "wp_dict list option"
  p_round_trip :: "bool option"
  p_extra_notes :: "string option"

text \<open>\<open>class WaypointDetail\<close> and the dict built for it in \<open>process_user_prompt\<close>.\<close>

record waypoint_detail =
  wd_name :: string
  wd_address :: string
  wd_coordinates :: coord
  wd_type :: string
  wd_hours :: "string list"
  wd_photos :: "string list"

text \<open>\<open>class LegInfo\<close> and the dict appended to \<open>legs_metadata\<close>.\<close>

record leg_info =
  distance :: string
  duration :: string

text \<open>
  The dict returned by \<open>process_user_prompt\<close>. The key \<open>legs\<close> is only present in the
  dict of the successful return, hence the option.
\<close>

record outcome =
  o_polyline :: "string option"
  o_instructions :: "string list"
  o_waypoints :: "waypoint_detail list"
  o_round_trip :: bool
  o_notes :: string
  o_legs :: "leg_info list option"

subsection \<open>Decoded responses of the collaborators\<close>

record geocode_resp =
  g_status :: string
  g_results :: "coord list"  \<comment> \<open>\<open>results[k]["geometry"]["location"]\<close>\<close>

record place =
  pl_lat :: real
  pl_lng :: real
  pl_name :: string
  pl_vicinity :: "string option"
  pl_place_id :: "string option"

record nearby_resp =
  n_status :: string
  n_results :: "place list"

record details_resp =
  dt_status :: string
  dt_weekday_text :: "string list option"  \<comment> \<open>\<open>result["opening_hours"]["weekday_text"]\<close>\<close>
  dt_photos :: "string list option"  \<comment> \<open>the \<open>photo_reference\<close> of each photo\<close>

record step =
  html_instructions :: string
  step_distance_text :: string

record leg =
  leg_distance_text :: string
  leg_duration_text :: string
  steps :: "step list"

record route =
  overview_polyline_points :: string
  route_legs :: "leg list"

record directions_resp =
  d_status :: string
  d_routes :: "route list"

text \<open>The parameters of the directions request, before they are formatted as text.\<close>

record directions_params =
  origin :: coord
  destination :: coord
  waypoints_param :: "coord list option"

record env =
  llm :: "string \<Rightarrow> parsed option"
    \<comment> \<open>the chat completion followed by \<open>json.loads\<close>; \<open>None\<close> when either raises\<close>
  geocode_api :: "string \<Rightarrow> geocode_resp"
  nearby_api :: "real \<Rightarrow> real \<Rightarrow> string \<Rightarrow> nearby_resp"
  details_api :: "string \<Rightarrow> details_resp"
  directions_api :: "directions_params \<Rightarrow> directions_resp"
  GOOGLE_MAPS_API_KEY :: string

datatype event =
    LLMCall string
  | GeocodeCall string
  | NearbyCall real real string
  | DetailsCall string
  | CompileCall "coord list"  \<comment> \<open>entry into \<open>get_directions_with_waypoints\<close>\<close>
  | DirectionsCall directions_params

section \<open>The functions of \<open>main.py\<close>\<close>

subsection \<open>\<open>extract_waypoints\<close>\<close>

definition default_parsed :: parsed where
  "default_parsed =
     \<lparr>p_waypoints = Some [], p_round_trip = Some False,
      p_extra_notes = Some ''Error or invalid JSON from LLM.''\<rparr>"

definition extract_waypoints :: "env \<Rightarrow> string \<Rightarrow> event list \<Rightarrow> parsed \<times> event list" where
  "extract_waypoints e user_prompt tr =
     (case llm e user_prompt of
        Some p \<Rightarrow> (p, tr @ [LLMCall user_prompt])
      | None \<Rightarrow> (default_parsed, tr @ [LLMCall user_prompt]))"

subsection \<open>Geocoding and places\<close>

definition geocode_address ::
  "env \<Rightarrow> string \<Rightarrow> event list \<Rightarrow> (py_error + coord option) \<times> event list" where
  "geocode_address e address tr =
     (let resp = geocode_api e address; tr' = tr @ [GeocodeCall address] in
      if g_status resp = ''OK'' then
        (case g_results resp of
           [] \<Rightarrow> (Inl IndexError, tr')
         | location # _ \<Rightarrow> (Inr (Some location), tr'))
      else (Inr None, tr'))"

type_synonym place_info = "real \<times> real \<times> string \<times> string \<times> string"

definition find_nearest_place ::
  "env \<Rightarrow> real \<Rightarrow> real \<Rightarrow> string \<Rightarrow> event list \<Rightarrow> place_info option \<times> event list" where
  "find_nearest_place e origin_lat origin_lng place_type tr =
     (let resp = nearby_api e origin_lat origin_lng place_type;
          tr' = tr @ [NearbyCall origin_lat origin_lng place_type] in
      if n_status resp = ''OK'' \<and> length (n_results resp) > 0 then
        (case n_results resp of
           pl # _ \<Rightarrow>
             (Some (pl_lat pl, pl_lng pl, pl_name pl,
                    (case pl_vicinity pl of Some a \<Rightarrow> a | None \<Rightarrow> ''''),
                    (case pl_place_id pl of Some i \<Rightarrow> i | None \<Rightarrow> '''')), tr')
         | [] \<Rightarrow> (None, tr'))
      else (None, tr'))"

record place_details =
  hours :: "string list"
  photos :: "string list"

definition photo_url :: "env \<Rightarrow> string \<Rightarrow> string" where
  "photo_url e photo_reference =
     ''https://maps.googleapis.com/maps/api/place/photo?maxwidth=400&photo_reference=''
       @ photo_reference @ ''&key='' @ GOOGLE_MAPS_API_KEY e"

definition get_place_details ::
  "env \<Rightarrow> string \<Rightarrow> event list \<Rightarrow> place_details \<times> event list" where
  "get_place_details e place_id tr =
     (let resp = details_api e place_id; tr' = tr @ [DetailsCall place_id] in
      if dt_status resp = ''OK'' then
        (\<lparr>hours = (case dt_weekday_text resp of Some h \<Rightarrow> h | None \<Rightarrow> []),
          photos = map (photo_url e) (case dt_photos resp of Some p \<Rightarrow> p | None \<Rightarrow> [])\<rparr>,
         tr')
      else (\<lparr>hours = [], photos = []\<rparr>, tr'))"

subsection \<open>\<open>get_directions_with_waypoints\<close>\<close>

text \<open>
  \<open>re.sub('<[^<]+?>', '', s)\<close>. \<open>match_rest\<close> is the lazy repetition after the first
  character of the class has been consumed: the match ends at the first \<open>>\<close>, and fails
  at a \<open><\<close> or at the end of the text. \<open>match_tag\<close> matches the pattern at the start of
  the text and gives the text after the match. \<open>re_sub_tags\<close> removes the leftmost
  non-overlapping matches.
\<close>

fun match_rest :: "string \<Rightarrow> string option" where
  "match_rest [] = None"
| "match_rest (c # cs) =
     (if c = CHR ''>'' then Some cs else if c = CHR ''<'' then None else match_rest cs)"

fun match_tag :: "string \<Rightarrow> string option" where
  "match_tag (a # b # cs) = (if a = CHR ''<'' \<and> b \<noteq> CHR ''<'' then match_rest cs else None)"
| "match_tag _ = None"

lemma match_rest_length: "match_rest cs = Some r \<Longrightarrow> length r < length cs"
  by (induction cs) (auto split: if_splits)

lemma match_tag_length: "match_tag s = Some r \<Longrightarrow> length r < length s"
  by (cases s rule: match_tag.cases) (auto split: if_splits dest: match_rest_length)

function re_sub_tags :: "string \<Rightarrow> string" where
  "re_sub_tags [] = []"
| "re_sub_tags (c # cs) =
     (case match_tag (c # cs) of
        Some rest \<Rightarrow> re_sub_tags rest
      | None \<Rightarrow> c # re_sub_tags cs)"
  by pat_completeness auto
termination
  by (relation "measure length") (auto dest: match_tag_length)

definition format_step :: "step \<Rightarrow> string" where
  "format_step st =
     re_sub_tags (html_instructions st) @ '' ('' @ step_distance_text st @ '')''"

fun steps_loop :: "step list \<Rightarrow> string list \<Rightarrow> string list" where
  "steps_loop [] ins = ins"
| "steps_loop (st # rest) ins = steps_loop rest (ins @ [format_step st])"

fun legs_loop ::
  "leg list \<Rightarrow> string list \<times> leg_info list \<Rightarrow> string list \<times> leg_info list" where
  "legs_loop [] (ins, legs_metadata) = (ins, legs_metadata)"
| "legs_loop (lg # rest) (ins, legs_metadata) =
     legs_loop rest
       (steps_loop (steps lg) ins,
        legs_metadata @ [\<lparr>distance = leg_distance_text lg, duration = leg_duration_text lg\<rparr>])"

definition build_params :: "coord list \<Rightarrow> directions_params" where
  "build_params waypoint_coords_list =
     \<lparr>origin = hd waypoint_coords_list,
      destination = last waypoint_coords_list,
      waypoints_param =
        (if length waypoint_coords_list > 2
         then Some (butlast (tl waypoint_coords_list)) else None)\<rparr>"

definition get_directions_with_waypoints ::
  "env \<Rightarrow> coord list \<Rightarrow> event list \<Rightarrow>
     (py_error + string option \<times> string list \<times> leg_info list) \<times> event list" where
  "get_directions_with_waypoints e waypoint_coords_list tr =
     (let tr0 = tr @ [CompileCall waypoint_coords_list] in
      if length waypoint_coords_list < 2 then (Inr (None, [], []), tr0)
      else
        let params = build_params waypoint_coords_list;
            resp = directions_api e params;
            tr' = tr0 @ [DirectionsCall params] in
        if d_status resp = ''OK'' then
          (case d_routes resp of
             [] \<Rightarrow> (Inl IndexError, tr')
           | rt # _ \<Rightarrow>
               (let (ins, legs_metadata) = legs_loop (route_legs rt) ([], []) in
                (Inr (Some (overview_polyline_points rt), ins, legs_metadata), tr')))
        else (Inr (None, [], []), tr'))"

subsection \<open>\<open>process_user_prompt\<close>\<close>

text \<open>
  The dict literal shared by the early returns of \<open>process_user_prompt\<close>: no polyline, no
  instructions, no waypoints, no \<open>legs\<close> key; only \<open>round_trip\<close> and \<open>notes\<close> differ.
\<close>

definition terminal :: "bool \<Rightarrow> string \<Rightarrow> outcome" where
  "terminal rt msg =
     \<lparr>o_polyline = None, o_instructions = [], o_waypoints = [],
      o_round_trip = rt, o_notes = msg, o_legs = None\<rparr>"

text \<open>
  What one pass through the body of the \<open>for\<close> loop does: it raises, it returns from the
  function, or it goes on to the next waypoint with the updated lists.
\<close>

datatype 'a flow = Raise py_error | Return outcome | Next 'a

type_synonym lists = "coord list \<times> waypoint_detail list"

definition resolve_step ::
  "env \<Rightarrow> bool \<Rightarrow> nat \<Rightarrow> wp_dict \<Rightarrow> lists \<Rightarrow> event list \<Rightarrow> lists flow \<times> event list" where
  "resolve_step e rt i wp st tr =
     (case st of (coords_list, detailed_waypoints) \<Rightarrow>
      case wp ''type'' of
        None \<Rightarrow> (Raise (KeyError ''type''), tr)
      | Some wp_type \<Rightarrow>
      case wp ''value'' of
        None \<Rightarrow> (Raise (KeyError ''value''), tr)
      | Some wp_value \<Rightarrow>
        if i = 0 \<and> wp_type = ''place_type'' then
          (Return (terminal False
             ''Your first waypoint is a place type, but no origin was provided.''), tr)
        else if wp_type = ''address'' then
          (case geocode_address e wp_value tr of
             (Inl err, tr1) \<Rightarrow> (Raise err, tr1)
           | (Inr None, tr1) \<Rightarrow>
               (Return (terminal rt (''Could not geocode address: '' @ wp_value)), tr1)
           | (Inr (Some loc), tr1) \<Rightarrow>
               (case find_nearest_place e (fst loc) (snd loc) wp_value tr1 of
                  (place_info, tr2) \<Rightarrow>
               case (case place_info of
                       Some (_, _, _, _, place_id) \<Rightarrow> get_place_details e place_id tr2
                     | None \<Rightarrow> (\<lparr>hours = [], photos = []\<rparr>, tr2)) of
                  (details, tr3) \<Rightarrow>
                 (Next (coords_list @ [loc],
                        detailed_waypoints @
                          [\<lparr>wd_name = wp_value, wd_address = wp_value, wd_coordinates = loc,
                            wd_type = ''Address'', wd_hours = hours details,
                            wd_photos = photos details\<rparr>]), tr3)))
        else if wp_type = ''place_type'' then
          (if coords_list = [] then
             (Return (terminal rt
                ''No origin available for place search. Please specify an address first.''), tr)
           else
             (case last coords_list of (origin_lat, origin_lng) \<Rightarrow>
              case find_nearest_place e origin_lat origin_lng wp_value tr of
                (None, tr1) \<Rightarrow>
                  (Return (terminal rt (''Could not find a nearby place for: '' @ wp_value)), tr1)
              | (Some (lat, lng, name, addr, place_id), tr1) \<Rightarrow>
                  (case get_place_details e place_id tr1 of
                     (details, tr2) \<Rightarrow>
                    (Next (coords_list @ [(lat, lng)],
                           detailed_waypoints @
                             [\<lparr>wd_name = name, wd_address = addr, wd_coordinates = (lat, lng),
                               wd_type = ''Place Type - '' @ wp_value, wd_hours = hours details,
                               wd_photos = photos details\<rparr>]), tr2))))
        else (Next (coords_list, detailed_waypoints), tr))"

text \<open>\<open>for i, wp in enumerate(waypoints)\<close>, from index \<open>i\<close> on.\<close>

fun resolve_loop ::
  "env \<Rightarrow> bool \<Rightarrow> nat \<Rightarrow> wp_dict list \<Rightarrow> lists \<Rightarrow> event list \<Rightarrow> lists flow \<times> event list" where
  "resolve_loop e rt i [] st tr = (Next st, tr)"
| "resolve_loop e rt i (wp # rest) st tr =
     (case resolve_step e rt i wp st tr of
        (Next st', tr') \<Rightarrow> resolve_loop e rt (Suc i) rest st' tr'
      | (Raise err, tr') \<Rightarrow> (Raise err, tr')
      | (Return out, tr') \<Rightarrow> (Return out, tr'))"

text \<open>
  Step 3 of the function: \<open>coords_list[0]\<close> and \<open>detailed_waypoints[0]\<close> are appended again.
  Indexing an empty list raises \<open>IndexError\<close>.
\<close>

definition handle_round_trip :: "bool \<Rightarrow> lists \<Rightarrow> py_error + lists" where
  "handle_round_trip rt st =
     (case st of (coords_list, detailed_waypoints) \<Rightarrow>
      if rt \<and> length coords_list > 0 then
        (case coords_list of
           [] \<Rightarrow> Inl IndexError
         | c0 # _ \<Rightarrow>
        case detailed_waypoints of
           [] \<Rightarrow> Inl IndexError
         | d0 # _ \<Rightarrow> Inr (coords_list @ [c0], detailed_waypoints @ [d0]))
      else Inr (coords_list, detailed_waypoints))"

text \<open>Steps 3 to 5, after the loop has run through.\<close>

definition build_route ::
  "env \<Rightarrow> bool \<Rightarrow> string \<Rightarrow> lists \<Rightarrow> event list \<Rightarrow> (py_error + outcome) \<times> event list" where
  "build_route e rt extra_notes st tr =
     (case handle_round_trip rt st of
        Inl err \<Rightarrow> (Inl err, tr)
      | Inr (coords_list, detailed_waypoints) \<Rightarrow>
        if length coords_list < 2 then
          (Inr (terminal rt ''Not enough waypoints to create a route.''), tr)
        else
          (case get_directions_with_waypoints e coords_list tr of
             (Inl err, tr') \<Rightarrow> (Inl err, tr')
           | (Inr (overall_poly, step_instructions, leg_metadata), tr') \<Rightarrow>
               if overall_poly = None \<or> overall_poly = Some [] then
                 (Inr \<lparr>o_polyline = None, o_instructions = [],
                       o_waypoints = detailed_waypoints, o_round_trip = rt,
                       o_notes = ''Directions request failed. Please try again.'',
                       o_legs = None\<rparr>, tr')
               else
                 (Inr \<lparr>o_polyline = overall_poly, o_instructions = step_instructions,
                       o_waypoints = detailed_waypoints, o_round_trip = rt,
                       o_notes = extra_notes, o_legs = Some leg_metadata\<rparr>, tr')))"

definition process_user_prompt ::
  "env \<Rightarrow> string \<Rightarrow> (py_error + outcome) \<times> event list" where
  "process_user_prompt e user_prompt =
     (case extract_waypoints e user_prompt [] of (p, tr) \<Rightarrow>
      let wps = (case p_waypoints p of Some w \<Rightarrow> w | None \<Rightarrow> []);
          rt = (case p_round_trip p of Some b \<Rightarrow> b | None \<Rightarrow> False);
          extra_notes = (case p_extra_notes p of Some n \<Rightarrow> n | None \<Rightarrow> [])
      in
      if wps = [] then
        (Inr (terminal False ''I couldn't parse any valid stops from your request.''), tr)
      else
        (case resolve_loop e rt 0 wps ([], []) tr of
           (Raise err, tr') \<Rightarrow> (Inl err, tr')
         | (Return out, tr') \<Rightarrow> (Inr out, tr')
         | (Next st, tr') \<Rightarrow> build_route e rt extra_notes st tr'))"

subsection \<open>\<open>process_user_prompt\<close> on undecoded output\<close>

text \<open>
  \<open>json.loads\<close> may return any JSON value, and Python works on it as it comes. What
  follows is \<open>process_user_prompt\<close> on such a value, up to the point where the record
  \<open>parsed\<close> above takes over:
  \<^item> \<open>parsed.get\<close> exists on a dict only; on any other value it raises \<open>AttributeError\<close>;
  \<^item> \<open>not waypoints\<close> is Python's truth test; \<open>enumerate(waypoints)\<close> raises \<open>TypeError\<close> on
    a number or a boolean, and yields strings (characters, keys) on a string or a dict, on
    which \<open>wp["type"]\<close> raises \<open>TypeError\<close> in the first pass;
  \<^item> \<open>wp["type"]\<close> and \<open>wp["value"]\<close> raise \<open>TypeError\<close> on an entry that is not a dict,
    and \<open>KeyError\<close> on a dict without the key.

  The outcome and the requests of this model hold strings and booleans. The result is
  \<open>None\<close>, which says nothing about the code, in two cases only: the loop reaches an
  object entry with both fields while \<open>type\<close> or \<open>value\<close> is not a string or \<open>round_trip\<close>
  is not a boolean; or the loop runs through while \<open>round_trip\<close> is not a boolean or
  \<open>extra_notes\<close> is not a string.
\<close>

datatype json =
    JNull
  | JBool bool
  | JNum real
  | JStr string
  | JArr "json list"
  | JObj "(string \<times> json) list"

text \<open>A dict decoded from an object: of two members with the same key, the later one stays.\<close>

definition dict_get :: "(string \<times> json) list \<Rightarrow> string \<Rightarrow> json option" where
  "dict_get fs k = map_of (rev fs) k"

fun truthy :: "json \<Rightarrow> bool" where
  "truthy JNull = False"
| "truthy (JBool b) = b"
| "truthy (JNum x) = (x \<noteq> 0)"
| "truthy (JStr s) = (s \<noteq> [])"
| "truthy (JArr xs) = (xs \<noteq> [])"
| "truthy (JObj fs) = (fs \<noteq> [])"

definition default_json :: json where
  "default_json =
     JObj [(''waypoints'', JArr []), (''round_trip'', JBool False),
           (''extra_notes'', JStr ''Error or invalid JSON from LLM.'')]"

text \<open>
  \<open>extract_waypoints\<close> with the chat completion \<open>raw\<close> as it is: the decoded content, or
  \<open>None\<close> when the request or \<open>json.loads\<close> raises.
\<close>

definition extract_waypoints_json ::
  "(string \<Rightarrow> json option) \<Rightarrow> string \<Rightarrow> event list \<Rightarrow> json \<times> event list" where
  "extract_waypoints_json raw user_prompt tr =
     (case raw user_prompt of
        Some j \<Rightarrow> (j, tr @ [LLMCall user_prompt])
      | None \<Rightarrow> (default_json, tr @ [LLMCall user_prompt]))"

definition resolve_step_json ::
  "env \<Rightarrow> json \<Rightarrow> nat \<Rightarrow> json \<Rightarrow> lists \<Rightarrow> event list \<Rightarrow> (lists flow \<times> event list) option" where
  "resolve_step_json e round_trip i wp st tr =
     (case wp of
        JObj fs \<Rightarrow>
          (case dict_get fs ''type'' of
             None \<Rightarrow> Some (Raise (KeyError ''type''), tr)
           | Some wp_type \<Rightarrow>
          case dict_get fs ''value'' of
             None \<Rightarrow> Some (Raise (KeyError ''value''), tr)
           | Some wp_value \<Rightarrow>
          case (wp_type, wp_value, round_trip) of
             (JStr t, JStr v, JBool rt) \<Rightarrow>
               Some (resolve_step e rt i [''type'' \<mapsto> t, ''value'' \<mapsto> v] st tr)
           | _ \<Rightarrow> None)
      | _ \<Rightarrow> Some (Raise TypeError, tr))"

fun resolve_loop_json ::
  "env \<Rightarrow> json \<Rightarrow> nat \<Rightarrow> json list \<Rightarrow> lists \<Rightarrow> event list \<Rightarrow>
     (lists flow \<times> event list) option" where
  "resolve_loop_json e round_trip i [] st tr = Some (Next st, tr)"
| "resolve_loop_json e round_trip i (wp # rest) st tr =
     (case resolve_step_json e round_trip i wp st tr of
        None \<Rightarrow> None
      | Some (Next st', tr') \<Rightarrow> resolve_loop_json e round_trip (Suc i) rest st' tr'
      | Some (Raise err, tr') \<Rightarrow> Some (Raise err, tr')
      | Some (Return out, tr') \<Rightarrow> Some (Return out, tr'))"

definition process_user_prompt_json ::
  "(string \<Rightarrow> json option) \<Rightarrow> env \<Rightarrow> string \<Rightarrow> ((py_error + outcome) \<times> event list) option" where
  "process_user_prompt_json raw e user_prompt =
     (case extract_waypoints_json raw user_prompt [] of (p, tr) \<Rightarrow>
      case p of
        JObj fs \<Rightarrow>
          let wps = (case dict_get fs ''waypoints'' of Some w \<Rightarrow> w | None \<Rightarrow> JArr []);
              round_trip = (case dict_get fs ''round_trip'' of Some b \<Rightarrow> b | None \<Rightarrow> JBool False);
              extra_notes = (case dict_get fs ''extra_notes'' of Some n \<Rightarrow> n | None \<Rightarrow> JStr [])
          in
          if \<not> truthy wps then
            Some (Inr (terminal False ''I couldn't parse any valid stops from your request.''), tr)
          else
            (case wps of
               JArr entries \<Rightarrow>
                 (case resolve_loop_json e round_trip 0 entries ([], []) tr of
                    None \<Rightarrow> None
                  | Some (Raise err, tr') \<Rightarrow> Some (Inl err, tr')
                  | Some (Return out, tr') \<Rightarrow> Some (Inr out, tr')
                  | Some (Next st, tr') \<Rightarrow>
                      (case (round_trip, extra_notes) of
                         (JBool rt, JStr n) \<Rightarrow> Some (build_route e rt n st tr')
                       | _ \<Rightarrow> None))
             | _ \<Rightarrow> Some (Inl TypeError, tr))
      | _ \<Rightarrow> Some (Inl AttributeError, tr))"

subsection \<open>Vocabulary for the statements\<close>

text \<open>The two kinds of waypoint that the loop resolves; any other kind falls through.\<close>

definition known_kind :: "wp_dict \<Rightarrow> bool" where
  "known_kind wp = (wp ''type'' = Some ''address'' \<or> wp ''type'' = Some ''place_type'')"

text \<open>The events of the route compiler, as opposed to those of extraction and resolution.\<close>

fun is_route_event :: "event \<Rightarrow> bool" where
  "is_route_event (CompileCall _) = True"
| "is_route_event (DirectionsCall _) = True"
| "is_route_event _ = False"

text \<open>
  Marked-up instruction text, as the directions service sends it: pieces of plain text
  and tags in angle brackets. \<open>render\<close> writes the text with its tags, \<open>plain_text\<close> is
  the text without them. In well-formed markup a tag has a name, no angle bracket stands
  inside a tag, and plain text holds no opening angle bracket.
\<close>

datatype markup = Text string | Tag string

fun render :: "markup list \<Rightarrow> string" where
  "render [] = []"
| "render (Text t # ms) = t @ render ms"
| "render (Tag n # ms) = ''<'' @ n @ ''>'' @ render ms"

fun plain_text :: "markup list \<Rightarrow> string" where
  "plain_text [] = []"
| "plain_text (Text t # ms) = t @ plain_text ms"
| "plain_text (Tag n # ms) = plain_text ms"

fun wf_markup :: "markup list \<Rightarrow> bool" where
  "wf_markup [] = True"
| "wf_markup (Text t # ms) = (CHR ''<'' \<notin> set t \<and> wf_markup ms)"
| "wf_markup (Tag n # ms) =
     (n \<noteq> [] \<and> CHR ''<'' \<notin> set n \<and> CHR ''>'' \<notin> set n \<and> wf_markup ms)"

text \<open>
  The explanations that the pipeline puts into \<open>notes\<close> when it gives up: five fixed
  messages, and two messages that end with the value of the waypoint concerned.
\<close>

definition failure_notes :: "string \<Rightarrow> bool" where
  "failure_notes n =
     (n = ''I couldn't parse any valid stops from your request.'' \<or>
      n = ''Your first waypoint is a place type, but no origin was provided.'' \<or>
      n = ''No origin available for place search. Please specify an address first.'' \<or>
      n = ''Not enough waypoints to create a route.'' \<or>
      n = ''Directions request failed. Please try again.'' \<or>
      prefix ''Could not geocode address: '' n \<or>
      prefix ''Could not find a nearby place for: '' n)"

text \<open>
  An outcome that reports a failure, and a pass or run of the loop that ends without an
  exception: it goes on, or it returns such an outcome.
\<close>

definition explained_failure :: "outcome \<Rightarrow> bool" where
  "explained_failure out =
     (o_polyline out = None \<and> o_instructions out = [] \<and> o_legs out = None \<and>
      failure_notes (o_notes out))"

fun no_raise :: "'a flow \<Rightarrow> bool" where
  "no_raise (Raise _) = False"
| "no_raise (Return out) = explained_failure out"
| "no_raise (Next _) = True"



fun is_entry :: "json \<Rightarrow> bool" where
  "is_entry (JObj fs) =
     (case (dict_get fs ''type'', dict_get fs ''value'') of
        (Some (JStr _), Some (JStr _)) \<Rightarrow> True
      | _ \<Rightarrow> False)"
| "is_entry _ = False"

fun conforming :: "json \<Rightarrow> bool" where
  "conforming (JObj fs) =
     ((case dict_get fs ''waypoints'' of
         None \<Rightarrow> True | Some (JArr es) \<Rightarrow> list_all is_entry es | Some _ \<Rightarrow> False) \<and>
      (case dict_get fs ''round_trip'' of
         None \<Rightarrow> True | Some (JBool _) \<Rightarrow> True | Some _ \<Rightarrow> False) \<and>
      (case dict_get fs ''extra_notes'' of
         None \<Rightarrow> True | Some (JStr _) \<Rightarrow> True | Some _ \<Rightarrow> False))"
| "conforming _ = False"

text \<open>The decoded form of an entry and of an object of that shape.\<close>

fun wp_of :: "json \<Rightarrow> wp_dict" where
  "wp_of (JObj fs) =
     (case (dict_get fs ''type'', dict_get fs ''value'') of
        (Some (JStr t), Some (JStr v)) \<Rightarrow> [''type'' \<mapsto> t, ''value'' \<mapsto> v]
      | _ \<Rightarrow> Map.empty)"
| "wp_of _ = Map.empty"

text \<open>The record that an object of this shape decodes to.\<close>

definition decode :: "json \<Rightarrow> parsed" where
  "decode j =
     (case j of
        JObj fs \<Rightarrow>
          \<lparr>p_waypoints =
             (case dict_get fs ''waypoints'' of Some (JArr es) \<Rightarrow> Some (map wp_of es) | _ \<Rightarrow> None),
           p_round_trip =
             (case dict_get fs ''round_trip'' of Some (JBool b) \<Rightarrow> Some b | _ \<Rightarrow> None),
           p_extra_notes =
             (case dict_get fs ''extra_notes'' of Some (JStr n) \<Rightarrow> Some n | _ \<Rightarrow> None)\<rparr>
      | _ \<Rightarrow> default_parsed)"

section \<open>Example collaborators\<close>

text \<open>
  A small world used to run the pipeline on concrete inputs: the geocoder knows one
  address, the place search knows one keyword, and the directions service always answers
  with the response it is given.
\<close>

definition wp_entry :: "string \<Rightarrow> string \<Rightarrow> wp_dict" where
  "wp_entry t v = [''type'' \<mapsto> t, ''value'' \<mapsto> v]"

definition demo_route :: route where
  "demo_route =
     \<lparr>overview_polyline_points = ''abc'',
      route_legs =
        [\<lparr>leg_distance_text = ''1 km'', leg_duration_text = ''2 mins'',
          steps =
            [\<lparr>html_instructions = ''Head <b>north</b>'', step_distance_text = ''0.5 km''\<rparr>,
             \<lparr>html_instructions = ''Turn <b>left</b>'', step_distance_text = ''0.4 km''\<rparr>]\<rparr>,
         \<lparr>leg_distance_text = ''3 km'', leg_duration_text = ''5 mins'',
          steps =
            [\<lparr>html_instructions = ''Go <div>back</div>'',
              step_distance_text = ''3 km''\<rparr>]\<rparr>]\<rparr>"

definition demo_env :: "parsed option \<Rightarrow> directions_resp \<Rightarrow> env" where
  "demo_env p dresp =
     \<lparr>llm = (\<lambda>_. p),
      geocode_api =
        (\<lambda>a. if a = ''UTSC'' then \<lparr>g_status = ''OK'', g_results = [(43, -79)]\<rparr>
             else \<lparr>g_status = ''ZERO_RESULTS'', g_results = []\<rparr>),
      nearby_api =
        (\<lambda>lat lng k.
           if k = ''coffee shop'' then
             \<lparr>n_status = ''OK'',
              n_results =
                [\<lparr>pl_lat = 44, pl_lng = -80, pl_name = ''Cafe'',
                  pl_vicinity = Some ''1 Road'', pl_place_id = Some ''pid''\<rparr>]\<rparr>
           else \<lparr>n_status = ''ZERO_RESULTS'', n_results = []\<rparr>),
      details_api =
        (\<lambda>i. \<lparr>dt_status = ''OK'', dt_weekday_text = Some [''Mon 9-5''],
               dt_photos = Some [''ref'']\<rparr>),
      directions_api = (\<lambda>_. dresp),
      GOOGLE_MAPS_API_KEY = ''K''\<rparr>"

definition ok_resp :: directions_resp where
  "ok_resp = \<lparr>d_status = ''OK'', d_routes = [demo_route]\<rparr>"

definition no_route_resp :: directions_resp where
  "no_route_resp = \<lparr>d_status = ''ZERO_RESULTS'', d_routes = []\<rparr>"

definition empty_polyline_resp :: directions_resp where
  "empty_polyline_resp =
     \<lparr>d_status = ''OK'', d_routes = [demo_route\<lparr>overview_polyline_points := []\<rparr>]\<rparr>"



definition demo_parsed :: "wp_dict list \<Rightarrow> bool \<Rightarrow> parsed" where
  "demo_parsed wps rt =
     \<lparr>p_waypoints = Some wps, p_round_trip = Some rt, p_extra_notes = Some ''as asked''\<rparr>"

definition utsc_detail :: waypoint_detail where
  "utsc_detail =
     \<lparr>wd_name = ''UTSC'', wd_address = ''UTSC'', wd_coordinates = (43, -79),
      wd_type = ''Address'', wd_hours = [], wd_photos = []\<rparr>"

definition cafe_detail :: waypoint_detail where
  "cafe_detail =
     \<lparr>wd_name = ''Cafe'', wd_address = ''1 Road'', wd_coordinates = (44, -80),
      wd_type = ''Place Type - coffee shop'', wd_hours = [''Mon 9-5''],
      wd_photos =
        [''https://maps.googleapis.com/maps/api/place/photo?maxwidth=400&photo_reference=ref&key=K'']\<rparr>"

definition demo_wps :: "wp_dict list" where
  "demo_wps = [wp_entry ''address'' ''UTSC'', wp_entry ''place_type'' ''coffee shop'']"

definition demo_trace :: "event list" where
  "demo_trace =
     [LLMCall ''go'', GeocodeCall ''UTSC'', NearbyCall 43 (-79) ''UTSC'',
      NearbyCall 43 (-79) ''coffee shop'', DetailsCall ''pid'']"

section \<open>Facts about the resolution loop\<close>

lemma resolve_loop_append:
  "resolve_loop e rt i (xs @ ys) st tr =
     (case resolve_loop e rt i xs st tr of
        (Next st', tr') \<Rightarrow> resolve_loop e rt (i + length xs) ys st' tr'
      | (Raise err, tr') \<Rightarrow> (Raise err, tr')
      | (Return out, tr') \<Rightarrow> (Return out, tr'))"
  by (induction xs arbitrary: i st tr) (auto split: prod.splits flow.splits)

lemma geocode_address_trace:
  "geocode_address e a tr = (r, tr') \<Longrightarrow> tr' = tr @ [GeocodeCall a]"
  by (auto simp: geocode_address_def Let_def split: if_splits list.splits)

lemma find_nearest_place_trace:
  "find_nearest_place e la lo k tr = (r, tr') \<Longrightarrow> tr' = tr @ [NearbyCall la lo k]"
  by (auto simp: find_nearest_place_def Let_def split: if_splits list.splits)

lemma get_place_details_trace:
  "get_place_details e i tr = (r, tr') \<Longrightarrow> tr' = tr @ [DetailsCall i]"
  by (auto simp: get_place_details_def Let_def split: if_splits)

lemma resolve_step_Next:
  assumes "resolve_step e rt i wp (cs, ds) tr = (Next (cs', ds'), tr')"
  shows "(wp ''type'' \<noteq> Some ''address'' \<and> wp ''type'' \<noteq> Some ''place_type'' \<and>
          cs' = cs \<and> ds' = ds \<and> tr' = tr) \<or>
         ((wp ''type'' = Some ''address'' \<or> wp ''type'' = Some ''place_type'') \<and>
          (\<exists>d. cs' = cs @ [wd_coordinates d] \<and> ds' = ds @ [d]))"
  using assms
  by (auto simp: resolve_step_def split: option.splits if_splits prod.splits sum.splits)

lemma resolve_step_trace:
  assumes "resolve_step e rt i wp st tr = (fl, tr')"
  shows "\<exists>evs. tr' = tr @ evs \<and> (\<forall>ev \<in> set evs. \<not> is_route_event ev)"
  using assms
  by (auto simp: resolve_step_def split: option.splits if_splits prod.splits sum.splits
      dest!: geocode_address_trace find_nearest_place_trace get_place_details_trace)


lemma resolve_loop_trace:
  "resolve_loop e rt i wps st tr = (fl, tr') \<Longrightarrow>
     \<exists>evs. tr' = tr @ evs \<and> (\<forall>ev \<in> set evs. \<not> is_route_event ev)"
proof (induction wps arbitrary: i st tr)
  case Nil
  then show ?case by simp
next
  case (Cons wp rest)
  obtain fl1 tr1 where step: "resolve_step e rt i wp st tr = (fl1, tr1)"
    by (cases "resolve_step e rt i wp st tr")
  from resolve_step_trace [OF step] obtain evs1
    where evs1: "tr1 = tr @ evs1" "\<forall>ev \<in> set evs1. \<not> is_route_event ev"
    by blast
  show ?case
  proof (cases fl1)
    case (Next st1)
    with Cons.prems step have "resolve_loop e rt (Suc i) rest st1 tr1 = (fl, tr')"
      by simp
    from Cons.IH [OF this] obtain evs2
      where "tr' = tr1 @ evs2" "\<forall>ev \<in> set evs2. \<not> is_route_event ev"
      by blast
    with evs1 have "tr' = tr @ (evs1 @ evs2) \<and> (\<forall>ev \<in> set (evs1 @ evs2). \<not> is_route_event ev)"
      by auto
    then show ?thesis by blast
  next
    case (Raise err)
    with Cons.prems step evs1 show ?thesis by auto
  next
    case (Return out)
    with Cons.prems step evs1 show ?thesis by auto
  qed
qed

lemma resolve_loop_Next:
  "resolve_loop e rt i wps (cs, ds) tr = (Next (cs', ds'), tr') \<Longrightarrow>
     \<exists>ds2. ds' = ds @ ds2 \<and> cs' = cs @ map wd_coordinates ds2 \<and>
       length ds2 = length (filter known_kind wps)"
proof (induction wps arbitrary: i cs ds tr)
  case Nil
  then show ?case by simp
next
  case (Cons wp rest)
  obtain fl1 tr1 where step: "resolve_step e rt i wp (cs, ds) tr = (fl1, tr1)"
    by (cases "resolve_step e rt i wp (cs, ds) tr")
  with Cons.prems obtain cs1 ds1 where fl1: "fl1 = Next (cs1, ds1)"
    and rest: "resolve_loop e rt (Suc i) rest (cs1, ds1) tr1 = (Next (cs', ds'), tr')"
    by (cases fl1) auto
  from Cons.IH [OF rest] obtain ds2 where ds2: "ds' = ds1 @ ds2"
    "cs' = cs1 @ map wd_coordinates ds2"
    "length ds2 = length (filter known_kind rest)"
    by blast
  from resolve_step_Next [OF step [unfolded fl1]]
  consider (skip) "\<not> known_kind wp" "cs1 = cs" "ds1 = ds"
    | (app) d where "known_kind wp" "cs1 = cs @ [wd_coordinates d]" "ds1 = ds @ [d]"
    unfolding known_kind_def by blast
  then show ?case
  proof cases
    case skip
    with ds2 have "ds' = ds @ ds2 \<and> cs' = cs @ map wd_coordinates ds2 \<and>
       length ds2 = length (filter known_kind (wp # rest))"
      by simp
    then show ?thesis by blast
  next
    case app
    with ds2 have "ds' = ds @ (d # ds2) \<and> cs' = cs @ map wd_coordinates (d # ds2) \<and>
       length (d # ds2) = length (filter known_kind (wp # rest))"
      by simp
    then show ?thesis by blast
  qed
qed

subsection \<open>Facts about the route compiler\<close>

lemma get_directions_trace:
  assumes "2 \<le> length cs"
  shows "snd (get_directions_with_waypoints e cs tr) =
           tr @ [CompileCall cs, DirectionsCall (build_params cs)]"
  using assms
  by (simp add: get_directions_with_waypoints_def Let_def split: list.splits prod.splits)

lemma get_directions_result:
  "fst (get_directions_with_waypoints e cs tr) = Inl err \<Longrightarrow> err = IndexError"
  by (auto simp: get_directions_with_waypoints_def Let_def split: list.splits prod.splits if_splits)

lemma build_route_compiles:
  assumes "handle_round_trip rt st = Inr (cs, ds)" and "2 \<le> length cs"
  shows "\<exists>r. build_route e rt n st tr =
               (r, tr @ [CompileCall cs, DirectionsCall (build_params cs)]) \<and>
             (r = Inl IndexError \<or>
              (\<exists>out. r = Inr out \<and> o_waypoints out = ds \<and> o_round_trip out = rt))"
proof -
  obtain r tr' where g: "get_directions_with_waypoints e cs tr = (r, tr')"
    by (cases "get_directions_with_waypoints e cs tr")
  with get_directions_trace [OF assms(2), of e tr]
  have tr': "tr' = tr @ [CompileCall cs, DirectionsCall (build_params cs)]"
    by simp
  show ?thesis
  proof (cases r)
    case (Inl err)
    with g get_directions_result [of e cs tr err] have "err = IndexError" by simp
    with Inl g tr' assms show ?thesis
      by (simp add: build_route_def)
  next
    case (Inr res)
    with g tr' assms show ?thesis
      by (cases res) (auto simp: build_route_def)
  qed
qed

lemma handle_round_trip_True:
  "handle_round_trip True (c # cs, d # ds) = Inr ((c # cs) @ [c], (d # ds) @ [d])"
  by (simp add: handle_round_trip_def)

section \<open>The first waypoint is a place type\<close>

text \<open>
  C1. Whenever the extractor's output starts with a waypoint of type \<open>place_type\<close>, the
  pipeline returns the terminal outcome of the ordering failure: no polyline, no
  instructions, no waypoints, \<open>round_trip\<close> false, and the notes that say that the first
  waypoint is a place type without an origin. This holds whatever the other waypoints
  and the extractor's \<open>round_trip\<close> flag are; only the extractor has been called.
\<close>

theorem first_place_type_is_ordering_failure:
  assumes "llm e user_prompt = Some p"
    and "p_waypoints p = Some (wp # rest)"
    and "wp ''type'' = Some ''place_type''"
    and "wp ''value'' = Some v"
  shows "process_user_prompt e user_prompt =
           (Inr \<lparr>o_polyline = None, o_instructions = [], o_waypoints = [],
                 o_round_trip = False,
                 o_notes = ''Your first waypoint is a place type, but no origin was provided.'',
                 o_legs = None\<rparr>,
            [LLMCall user_prompt])"
  using assms
  by (simp add: process_user_prompt_def extract_waypoints_def resolve_step_def terminal_def)

theorem first_place_type_is_ordering_failure_witness:
  "process_user_prompt
     (demo_env (Some (demo_parsed [wp_entry ''place_type'' ''coffee shop'',
                                   wp_entry ''address'' ''UTSC''] True)) ok_resp) ''go'' =
     (Inr \<lparr>o_polyline = None, o_instructions = [], o_waypoints = [],
           o_round_trip = False,
           o_notes = ''Your first waypoint is a place type, but no origin was provided.'',
           o_legs = None\<rparr>,
      [LLMCall ''go''])"
  by (rule first_place_type_is_ordering_failure
        [where p = "demo_parsed [wp_entry ''place_type'' ''coffee shop'',
                                 wp_entry ''address'' ''UTSC''] True"
           and wp = "wp_entry ''place_type'' ''coffee shop''"
           and rest = "[wp_entry ''address'' ''UTSC'']"
           and v = "''coffee shop''"])
     (simp_all add: demo_env_def demo_parsed_def wp_entry_def)

section \<open>Round trips\<close>

lemma demo_loop:
  "resolve_loop (demo_env p d) rt 0 demo_wps ([], []) [LLMCall ''go''] =
     (Next ([(43, -79), (44, -80)], [utsc_detail, cafe_detail]), demo_trace)"
  by (simp add: demo_wps_def wp_entry_def resolve_step_def demo_env_def geocode_address_def
      find_nearest_place_def get_place_details_def photo_url_def utsc_detail_def
      cafe_detail_def demo_trace_def)

text \<open>
  C2. When the extractor asks for a round trip and each of the \<open>N\<close> waypoints (all of
  a known kind) is resolved, the loop has produced \<open>N\<close> resolved waypoints, and step 3
  appends the first of them again: the final list has \<open>N + 1\<close> entries, its last entry is
  the very value of its first entry (so their coordinates are equal), and the same holds
  for the coordinate list. Nothing is resolved again: after the trace of the loop, the
  only calls are the one to the route compiler and its directions request. The pipeline
  then returns an outcome with that list of waypoints, unless the directions response
  announces \<open>OK\<close> and carries no route, which raises \<open>IndexError\<close>.
\<close>

theorem round_trip_appends_first_waypoint:
  assumes ex: "llm e user_prompt = Some p"
    and wps: "p_waypoints p = Some wps" "wps \<noteq> []"
    and rt: "p_round_trip p = Some True"
    and kinds: "\<forall>wp \<in> set wps. known_kind wp"
    and loop: "resolve_loop e True 0 wps ([], []) [LLMCall user_prompt] = (Next (cs, ds), tr)"
  shows "length ds = length wps \<and>
         (\<exists>cs' ds'. handle_round_trip True (cs, ds) = Inr (cs', ds') \<and>
            ds' = ds @ [hd ds] \<and> cs' = cs @ [hd cs] \<and>
            length ds' = length wps + 1 \<and>
            last ds' = hd ds' \<and>
            wd_coordinates (last ds') = wd_coordinates (hd ds') \<and>
            last cs' = hd cs' \<and>
            (\<exists>r. process_user_prompt e user_prompt =
                    (r, tr @ [CompileCall cs', DirectionsCall (build_params cs')]) \<and>
                 (r = Inl IndexError \<or>
                  (\<exists>out. r = Inr out \<and> o_waypoints out = ds' \<and> o_round_trip out))))"
proof -
  from resolve_loop_Next [OF loop] obtain ds2 where ds2: "ds = ds2"
    "cs = map wd_coordinates ds2" "length ds2 = length (filter known_kind wps)"
    by auto
  from kinds have "filter known_kind wps = wps" by (simp add: filter_id_conv)
  with ds2 have len: "length ds = length wps" "length cs = length wps" by simp_all
  with wps obtain d ds0 c cs0 where shape: "ds = d # ds0" "cs = c # cs0"
    by (cases ds; cases cs) auto
  let ?cs' = "cs @ [hd cs]" and ?ds' = "ds @ [hd ds]"
  have hrt: "handle_round_trip True (cs, ds) = Inr (?cs', ?ds')"
    using shape by (simp add: handle_round_trip_def)
  have "2 \<le> length ?cs'" using shape by simp
  from build_route_compiles [OF hrt this, of e "case p_extra_notes p of Some n \<Rightarrow> n | None \<Rightarrow> []" tr]
  obtain r where r: "build_route e True (case p_extra_notes p of Some n \<Rightarrow> n | None \<Rightarrow> []) (cs, ds) tr =
      (r, tr @ [CompileCall ?cs', DirectionsCall (build_params ?cs')])"
    "r = Inl IndexError \<or> (\<exists>out. r = Inr out \<and> o_waypoints out = ?ds' \<and> o_round_trip out = True)"
    by blast
  have run: "process_user_prompt e user_prompt =
      (r, tr @ [CompileCall ?cs', DirectionsCall (build_params ?cs')])"
    using ex wps rt loop r(1)
    by (simp add: process_user_prompt_def extract_waypoints_def)
  have props: "length ?ds' = length wps + 1" "last ?ds' = hd ?ds'"
    "wd_coordinates (last ?ds') = wd_coordinates (hd ?ds')" "last ?cs' = hd ?cs'"
    using shape len by simp_all
  from len(1) hrt props run r(2) show ?thesis
    by (intro conjI exI [of _ ?cs'] exI [of _ ?ds'] exI [of _ r]) simp_all
qed

theorem round_trip_appends_first_waypoint_witness:
  "length [utsc_detail, cafe_detail] = length demo_wps \<and>
   (\<exists>cs' ds'.
      handle_round_trip True ([(43, -79), (44, -80)], [utsc_detail, cafe_detail]) =
        Inr (cs', ds') \<and>
      ds' = [utsc_detail, cafe_detail] @ [hd [utsc_detail, cafe_detail]] \<and>
      cs' = [(43, -79), (44, -80)] @ [hd [(43, -79), (44, -80)]] \<and>
      length ds' = length demo_wps + 1 \<and>
      last ds' = hd ds' \<and>
      wd_coordinates (last ds') = wd_coordinates (hd ds') \<and>
      last cs' = hd cs' \<and>
      (\<exists>r. process_user_prompt (demo_env (Some (demo_parsed demo_wps True)) ok_resp) ''go'' =
              (r, demo_trace @ [CompileCall cs', DirectionsCall (build_params cs')]) \<and>
           (r = Inl IndexError \<or>
            (\<exists>out. r = Inr out \<and> o_waypoints out = ds' \<and> o_round_trip out))))"
  by (rule round_trip_appends_first_waypoint [where p = "demo_parsed demo_wps True"])
     (simp_all add: demo_loop, simp_all add: demo_env_def demo_parsed_def demo_wps_def
        wp_entry_def known_kind_def)

section \<open>Failures of the extractor and of the geocoder\<close>

lemma process_user_prompt_after_loop:
  assumes "llm e user_prompt = Some p"
    and "p_waypoints p = Some wps" and "wps \<noteq> []"
    and "(case p_round_trip p of Some b \<Rightarrow> b | None \<Rightarrow> False) = rt"
    and "resolve_loop e rt 0 wps ([], []) [LLMCall user_prompt] = (fl, tr)"
  shows "process_user_prompt e user_prompt =
           (case fl of
              Raise err \<Rightarrow> (Inl err, tr)
            | Return out \<Rightarrow> (Inr out, tr)
            | Next st \<Rightarrow>
                build_route e rt (case p_extra_notes p of Some n \<Rightarrow> n | None \<Rightarrow> []) st tr)"
  using assms
  by (simp add: process_user_prompt_def extract_waypoints_def)

text \<open>
  The notes of the outcome after a failed extraction are not the text \<open>parser error\<close>:
  the extractor's failure becomes its default structure without waypoints, and the
  pipeline answers with the message of the empty waypoint list.
\<close>

theorem parser_error_notes_counterexample:
  "llm (demo_env None ok_resp) ''go'' = None \<and>
   fst (process_user_prompt (demo_env None ok_resp) ''go'') =
     Inr (terminal False ''I couldn't parse any valid stops from your request.'') \<and>
   o_notes (terminal False ''I couldn't parse any valid stops from your request.'') \<noteq>
     ''parser error''"
  by (simp add: process_user_prompt_def extract_waypoints_def demo_env_def default_parsed_def
      terminal_def)

text \<open>
  C4 (as amended). When the chat completion raises or its content is not valid JSON,
  \<open>extract_waypoints\<close> returns its default structure; then, and also when the decoded
  object has no \<open>waypoints\<close> key or an empty list under it, the pipeline returns the
  empty outcome (no polyline, no instructions, no waypoints, \<open>round_trip\<close> false) with
  the notes \<open>I couldn't parse any valid stops from your request.\<close>, after the single
  call to the extractor.
\<close>

theorem extractor_failure_is_empty_outcome:
  assumes "llm e user_prompt = None \<or>
           (\<exists>p. llm e user_prompt = Some p \<and>
                (p_waypoints p = None \<or> p_waypoints p = Some []))"
  shows "extract_waypoints e user_prompt [] =
           ((case llm e user_prompt of Some p \<Rightarrow> p | None \<Rightarrow>
               \<lparr>p_waypoints = Some [], p_round_trip = Some False,
                p_extra_notes = Some ''Error or invalid JSON from LLM.''\<rparr>),
            [LLMCall user_prompt]) \<and>
         process_user_prompt e user_prompt =
           (Inr \<lparr>o_polyline = None, o_instructions = [], o_waypoints = [],
                 o_round_trip = False,
                 o_notes = ''I couldn't parse any valid stops from your request.'',
                 o_legs = None\<rparr>,
            [LLMCall user_prompt])"
  using assms
  by (auto simp: process_user_prompt_def extract_waypoints_def default_parsed_def terminal_def)

theorem extractor_failure_is_empty_outcome_witness:
  "extract_waypoints (demo_env None ok_resp) ''go'' [] =
     ((case llm (demo_env None ok_resp) ''go'' of Some p \<Rightarrow> p | None \<Rightarrow>
         \<lparr>p_waypoints = Some [], p_round_trip = Some False,
          p_extra_notes = Some ''Error or invalid JSON from LLM.''\<rparr>),
      [LLMCall ''go'']) \<and>
   process_user_prompt (demo_env None ok_resp) ''go'' =
     (Inr \<lparr>o_polyline = None, o_instructions = [], o_waypoints = [],
           o_round_trip = False,
           o_notes = ''I couldn't parse any valid stops from your request.'',
           o_legs = None\<rparr>,
      [LLMCall ''go''])"
  by (rule extractor_failure_is_empty_outcome) (simp add: demo_env_def)

text \<open>
  C5. When the loop reaches a waypoint of type \<open>address\<close> (the waypoints before it have
  been resolved) and the geocoder's answer for its value is not \<open>OK\<close>, the pipeline
  returns the terminal outcome with no polyline, no instructions, no waypoints, the
  notes \<open>Could not geocode address: \<close> followed by the value, and the extractor's
  \<open>round_trip\<close> flag; the geocoding request is the last call made.
\<close>

theorem geocode_failure_is_terminal:
  assumes ex: "llm e user_prompt = Some p"
    and wps: "p_waypoints p = Some (pre @ wp # post)"
    and rt: "(case p_round_trip p of Some b \<Rightarrow> b | None \<Rightarrow> False) = rt"
    and reached: "resolve_loop e rt 0 pre ([], []) [LLMCall user_prompt] = (Next st, tr)"
    and kind: "wp ''type'' = Some ''address''"
    and val: "wp ''value'' = Some v"
    and not_found: "g_status (geocode_api e v) \<noteq> ''OK''"
  shows "process_user_prompt e user_prompt =
           (Inr \<lparr>o_polyline = None, o_instructions = [], o_waypoints = [],
                 o_round_trip = rt,
                 o_notes = ''Could not geocode address: '' @ v,
                 o_legs = None\<rparr>,
            tr @ [GeocodeCall v])"
proof -
  have step: "resolve_step e rt (length pre) wp st tr =
      (Return (terminal rt (''Could not geocode address: '' @ v)), tr @ [GeocodeCall v])"
    using kind val not_found
    by (cases st) (simp add: resolve_step_def geocode_address_def)
  have "resolve_loop e rt 0 (pre @ wp # post) ([], []) [LLMCall user_prompt] =
      (Return (terminal rt (''Could not geocode address: '' @ v)), tr @ [GeocodeCall v])"
    using reached step by (simp add: resolve_loop_append)
  from process_user_prompt_after_loop [OF ex wps _ rt this] show ?thesis
    by (simp add: terminal_def)
qed

theorem geocode_failure_is_terminal_witness:
  "process_user_prompt
     (demo_env (Some (demo_parsed (demo_wps @ wp_entry ''address'' ''Nonexistent Place'' # []) True))
        ok_resp) ''go'' =
     (Inr \<lparr>o_polyline = None, o_instructions = [], o_waypoints = [],
           o_round_trip = True,
           o_notes = ''Could not geocode address: '' @ ''Nonexistent Place'',
           o_legs = None\<rparr>,
      demo_trace @ [GeocodeCall ''Nonexistent Place''])"
  by (rule geocode_failure_is_terminal
        [where p = "demo_parsed (demo_wps @ wp_entry ''address'' ''Nonexistent Place'' # []) True"
           and pre = demo_wps and wp = "wp_entry ''address'' ''Nonexistent Place''"
           and post = "[]" and rt = True and v = "''Nonexistent Place''"
           and st = "([(43, -79), (44, -80)], [utsc_detail, cafe_detail])"])
     (simp_all add: demo_loop, simp_all add: demo_env_def demo_parsed_def wp_entry_def)

section \<open>The route compiler\<close>

lemma build_route_trace:
  "\<exists>r. build_route e rt n st tr = (r, tr) \<or>
       (\<exists>cs. 2 \<le> length cs \<and>
          build_route e rt n st tr =
            (r, tr @ [CompileCall cs, DirectionsCall (build_params cs)]))"
proof (cases "handle_round_trip rt st")
  case (Inl err)
  then show ?thesis by (simp add: build_route_def)
next
  case (Inr lists)
  obtain cs ds where lists: "lists = (cs, ds)" by (cases lists)
  show ?thesis
  proof (cases "length cs < 2")
    case True
    with Inr lists show ?thesis by (simp add: build_route_def)
  next
    case False
    then have "2 \<le> length cs" by simp
    with build_route_compiles [OF Inr [unfolded lists], of e n tr] show ?thesis
      by blast
  qed
qed

lemma process_user_prompt_trace:
  "\<exists>evs. (\<forall>ev \<in> set evs. \<not> is_route_event ev) \<and>
     (snd (process_user_prompt e user_prompt) = evs \<or>
      (\<exists>cs. 2 \<le> length cs \<and>
         snd (process_user_prompt e user_prompt) =
           evs @ [CompileCall cs, DirectionsCall (build_params cs)]))"
proof -
  obtain p tr0 where ex: "extract_waypoints e user_prompt [] = (p, tr0)"
    by (cases "extract_waypoints e user_prompt []")
  then have tr0: "tr0 = [LLMCall user_prompt]"
    by (auto simp: extract_waypoints_def split: option.splits)
  define wps where "wps = (case p_waypoints p of Some w \<Rightarrow> w | None \<Rightarrow> [])"
  define rt where "rt = (case p_round_trip p of Some b \<Rightarrow> b | None \<Rightarrow> False)"
  define n where "n = (case p_extra_notes p of Some n \<Rightarrow> n | None \<Rightarrow> [])"
  obtain fl tr where loop: "resolve_loop e rt 0 wps ([], []) tr0 = (fl, tr)"
    by (cases "resolve_loop e rt 0 wps ([], []) tr0")
  from resolve_loop_trace [OF loop] tr0 have quiet: "\<forall>ev \<in> set tr. \<not> is_route_event ev"
    by auto
  have run: "process_user_prompt e user_prompt =
      (if wps = [] then (Inr (terminal False ''I couldn't parse any valid stops from your request.''), tr0)
       else case fl of Raise err \<Rightarrow> (Inl err, tr) | Return out \<Rightarrow> (Inr out, tr)
            | Next st \<Rightarrow> build_route e rt n st tr)"
    using ex loop unfolding wps_def rt_def n_def
    by (simp add: process_user_prompt_def split: flow.splits)
  show ?thesis
  proof (cases "wps = []")
    case True
    with run tr0 have "snd (process_user_prompt e user_prompt) = [LLMCall user_prompt]" by simp
    then show ?thesis by (intro exI [of _ "[LLMCall user_prompt]"]) simp
  next
    case False
    show ?thesis
    proof (cases fl)
      case (Next st)
      with run False have "process_user_prompt e user_prompt = build_route e rt n st tr" by simp
      with build_route_trace [of e rt n st tr] quiet show ?thesis
        by (intro exI [of _ tr]) auto
    next
      case (Raise err)
      with run False quiet show ?thesis by (intro exI [of _ tr]) simp
    next
      case (Return out)
      with run False quiet show ?thesis by (intro exI [of _ tr]) simp
    qed
  qed
qed

lemma demo_round_trip_run:
  "\<exists>r. process_user_prompt (demo_env (Some (demo_parsed demo_wps True)) d) ''go'' =
         (r, demo_trace @
               [CompileCall [(43, -79), (44, -80), (43, -79)],
                DirectionsCall (build_params [(43, -79), (44, -80), (43, -79)])])"
proof -
  let ?e = "demo_env (Some (demo_parsed demo_wps True)) d"
  have "process_user_prompt ?e ''go'' =
      build_route ?e True ''as asked'' ([(43, -79), (44, -80)], [utsc_detail, cafe_detail])
        demo_trace"
    using process_user_prompt_after_loop
      [of ?e "''go''" "demo_parsed demo_wps True" demo_wps True _ demo_trace, OF _ _ _ _ demo_loop]
    by (simp add: demo_env_def demo_parsed_def demo_wps_def)
  moreover have "handle_round_trip True ([(43, -79), (44, -80)], [utsc_detail, cafe_detail]) =
      Inr ([(43, -79), (44, -80), (43, -79)], [utsc_detail, cafe_detail, utsc_detail])"
    by (simp add: handle_round_trip_def)
  from build_route_compiles [OF this, of ?e "''as asked''" demo_trace]
  have "\<exists>r. build_route ?e True ''as asked''
          ([(43, -79), (44, -80)], [utsc_detail, cafe_detail]) demo_trace =
        (r, demo_trace @
              [CompileCall [(43, -79), (44, -80), (43, -79)],
               DirectionsCall (build_params [(43, -79), (44, -80), (43, -79)])])"
    by auto
  ultimately show ?thesis by simp
qed

text \<open>
  C6. In every run, the route compiler is entered only with a list of at least two
  coordinates, and a directions request is only sent with the parameters built from such
  a list. Whenever fewer than two points remain after the loop and the round-trip step,
  the pipeline returns the terminal outcome \<open>Not enough waypoints to create a route.\<close>
  without a polyline, and its trace holds no call of the compiler and no directions
  request.
\<close>

theorem compiler_only_with_two_points:
  "(\<forall>cs. CompileCall cs \<in> set (snd (process_user_prompt e user_prompt)) \<longrightarrow> 2 \<le> length cs) \<and>
   (\<forall>ps. DirectionsCall ps \<in> set (snd (process_user_prompt e user_prompt)) \<longrightarrow>
      (\<exists>cs. 2 \<le> length cs \<and> ps = build_params cs)) \<and>
   (\<forall>p wps rt st tr cs ds.
      llm e user_prompt = Some p \<and> p_waypoints p = Some wps \<and> wps \<noteq> [] \<and>
      (case p_round_trip p of Some b \<Rightarrow> b | None \<Rightarrow> False) = rt \<and>
      resolve_loop e rt 0 wps ([], []) [LLMCall user_prompt] = (Next st, tr) \<and>
      handle_round_trip rt st = Inr (cs, ds) \<and> length cs < 2 \<longrightarrow>
      process_user_prompt e user_prompt =
        (Inr \<lparr>o_polyline = None, o_instructions = [], o_waypoints = [],
              o_round_trip = rt, o_notes = ''Not enough waypoints to create a route.'',
              o_legs = None\<rparr>, tr) \<and>
      (\<forall>ev \<in> set tr. \<not> is_route_event ev))"
proof (intro conjI allI impI)
  fix cs
  assume "CompileCall cs \<in> set (snd (process_user_prompt e user_prompt))"
  with process_user_prompt_trace [of e user_prompt] show "2 \<le> length cs"
    by (elim exE conjE disjE) auto
next
  fix ps
  assume "DirectionsCall ps \<in> set (snd (process_user_prompt e user_prompt))"
  with process_user_prompt_trace [of e user_prompt]
  show "\<exists>cs. 2 \<le> length cs \<and> ps = build_params cs"
    by (elim exE conjE disjE) auto
next
  fix p wps rt st tr cs ds
  assume h: "llm e user_prompt = Some p \<and> p_waypoints p = Some wps \<and> wps \<noteq> [] \<and>
      (case p_round_trip p of Some b \<Rightarrow> b | None \<Rightarrow> False) = rt \<and>
      resolve_loop e rt 0 wps ([], []) [LLMCall user_prompt] = (Next st, tr) \<and>
      handle_round_trip rt st = Inr (cs, ds) \<and> length cs < 2"
  then have "process_user_prompt e user_prompt =
      build_route e rt (case p_extra_notes p of Some n \<Rightarrow> n | None \<Rightarrow> []) st tr"
    using process_user_prompt_after_loop [of e user_prompt p wps rt "Next st" tr] by simp
  with h show "process_user_prompt e user_prompt =
        (Inr \<lparr>o_polyline = None, o_instructions = [], o_waypoints = [],
              o_round_trip = rt, o_notes = ''Not enough waypoints to create a route.'',
              o_legs = None\<rparr>, tr)"
    by (simp add: build_route_def terminal_def)
  from h resolve_loop_trace [of e rt 0 wps "([], [])" "[LLMCall user_prompt]" "Next st" tr]
  show "\<forall>ev \<in> set tr. \<not> is_route_event ev"
    by auto
qed


theorem compiler_only_with_two_points_witness:
  "CompileCall [(43, -79), (44, -80), (43, -79)] \<in>
     set (snd (process_user_prompt (demo_env (Some (demo_parsed demo_wps True)) ok_resp) ''go'')) \<and>
   2 \<le> length [(43 :: real, -79 :: real), (44, -80), (43, -79)] \<and>
   DirectionsCall (build_params [(43, -79), (44, -80), (43, -79)]) \<in>
     set (snd (process_user_prompt (demo_env (Some (demo_parsed demo_wps True)) ok_resp) ''go'')) \<and>
   (\<exists>cs. 2 \<le> length cs \<and> build_params [(43, -79), (44, -80), (43, -79)] = build_params cs) \<and>
   handle_round_trip False ([(43, -79)], [utsc_detail]) = Inr ([(43, -79)], [utsc_detail]) \<and>
   process_user_prompt
     (demo_env (Some (demo_parsed [wp_entry ''address'' ''UTSC''] False)) ok_resp) ''go'' =
     (Inr \<lparr>o_polyline = None, o_instructions = [], o_waypoints = [],
           o_round_trip = False, o_notes = ''Not enough waypoints to create a route.'',
           o_legs = None\<rparr>,
      [LLMCall ''go'', GeocodeCall ''UTSC'', NearbyCall 43 (-79) ''UTSC'']) \<and>
   list_all (\<lambda>ev. \<not> is_route_event ev)
     [LLMCall ''go'', GeocodeCall ''UTSC'', NearbyCall 43 (-79) ''UTSC'']"
proof -
  let ?e1 = "demo_env (Some (demo_parsed demo_wps True)) ok_resp"
  let ?p2 = "demo_parsed [wp_entry ''address'' ''UTSC''] False"
  let ?e2 = "demo_env (Some ?p2) ok_resp"
  let ?c3 = "[(43 :: real, -79 :: real), (44, -80), (43, -79)]"
  let ?tr = "[LLMCall ''go'', GeocodeCall ''UTSC'', NearbyCall 43 (-79) ''UTSC'']"
  from demo_round_trip_run [of ok_resp]
  have a: "CompileCall ?c3 \<in> set (snd (process_user_prompt ?e1 ''go''))"
    and b: "DirectionsCall (build_params ?c3) \<in> set (snd (process_user_prompt ?e1 ''go''))"
    by auto
  note T1 = compiler_only_with_two_points [of ?e1 "''go''"]
  from T1 a have c: "2 \<le> length ?c3" by blast
  from T1 b have d: "\<exists>cs. 2 \<le> length cs \<and> build_params ?c3 = build_params cs" by blast
  have hrt: "handle_round_trip False ([(43, -79)], [utsc_detail]) = Inr ([(43, -79)], [utsc_detail])"
    by (simp add: handle_round_trip_def)
  have h: "llm ?e2 ''go'' = Some ?p2 \<and> p_waypoints ?p2 = Some [wp_entry ''address'' ''UTSC''] \<and>
      [wp_entry ''address'' ''UTSC''] \<noteq> [] \<and>
      (case p_round_trip ?p2 of Some b \<Rightarrow> b | None \<Rightarrow> False) = False \<and>
      resolve_loop ?e2 False 0 [wp_entry ''address'' ''UTSC''] ([], []) [LLMCall ''go''] =
        (Next ([(43, -79)], [utsc_detail]), ?tr) \<and>
      handle_round_trip False ([(43, -79)], [utsc_detail]) = Inr ([(43, -79)], [utsc_detail]) \<and>
      length [(43 :: real, -79 :: real)] < 2"
    by (simp add: demo_env_def demo_parsed_def wp_entry_def resolve_step_def geocode_address_def
        find_nearest_place_def utsc_detail_def handle_round_trip_def)
  note T2 = compiler_only_with_two_points [of ?e2 "''go''"]
  from T2 h have e: "process_user_prompt ?e2 ''go'' =
     (Inr \<lparr>o_polyline = None, o_instructions = [], o_waypoints = [],
           o_round_trip = False, o_notes = ''Not enough waypoints to create a route.'',
           o_legs = None\<rparr>, ?tr) \<and> (\<forall>ev \<in> set ?tr. \<not> is_route_event ev)"
    by blast
  then have f: "list_all (\<lambda>ev. \<not> is_route_event ev) ?tr"
    unfolding list_all_iff by blast
  from a b c d hrt e f show ?thesis by blast
qed

section \<open>Failures of the directions request\<close>

lemma handle_round_trip_alias:
  assumes "handle_round_trip rt st = Inr (cs, ds)" and "2 \<le> length cs"
  shows "ds = (if rt then snd st @ [hd (snd st)] else snd st)"
  using assms
  by (cases st) (auto simp: handle_round_trip_def split: if_splits list.splits)

text \<open>
  C7. When the loop has resolved every waypoint and at least two points are left after
  the round-trip step, and the directions service answers with a status other than
  \<open>OK\<close>, the pipeline returns the outcome that carries the whole list of resolved
  waypoints (with the first waypoint appended again when a round trip was asked for), no
  polyline, no instructions, the extractor's \<open>round_trip\<close> flag, and the notes
  \<open>Directions request failed. Please try again.\<close>
\<close>

theorem directions_failure_keeps_waypoints:
  assumes ex: "llm e user_prompt = Some p"
    and wps: "p_waypoints p = Some wps" "wps \<noteq> []"
    and rt: "(case p_round_trip p of Some b \<Rightarrow> b | None \<Rightarrow> False) = rt"
    and loop: "resolve_loop e rt 0 wps ([], []) [LLMCall user_prompt] = (Next st, tr)"
    and hrt: "handle_round_trip rt st = Inr (cs, ds)"
    and two: "2 \<le> length cs"
    and failed: "d_status (directions_api e (build_params cs)) \<noteq> ''OK''"
  shows "process_user_prompt e user_prompt =
           (Inr \<lparr>o_polyline = None, o_instructions = [], o_waypoints = ds,
                 o_round_trip = rt,
                 o_notes = ''Directions request failed. Please try again.'',
                 o_legs = None\<rparr>,
            tr @ [CompileCall cs, DirectionsCall (build_params cs)]) \<and>
         ds = (if rt then snd st @ [hd (snd st)] else snd st)"
proof -
  have "process_user_prompt e user_prompt =
      build_route e rt (case p_extra_notes p of Some n \<Rightarrow> n | None \<Rightarrow> []) st tr"
    using process_user_prompt_after_loop [OF ex wps rt loop] by simp
  moreover have "get_directions_with_waypoints e cs tr =
      (Inr (None, [], []), tr @ [CompileCall cs, DirectionsCall (build_params cs)])"
    using two failed by (simp add: get_directions_with_waypoints_def Let_def)
  ultimately show ?thesis
    using hrt two handle_round_trip_alias [OF hrt two] by (simp add: build_route_def)
qed

theorem directions_failure_keeps_waypoints_witness:
  "process_user_prompt (demo_env (Some (demo_parsed demo_wps True)) no_route_resp) ''go'' =
     (Inr \<lparr>o_polyline = None, o_instructions = [],
           o_waypoints = [utsc_detail, cafe_detail, utsc_detail],
           o_round_trip = True,
           o_notes = ''Directions request failed. Please try again.'',
           o_legs = None\<rparr>,
      demo_trace @
        [CompileCall [(43, -79), (44, -80), (43, -79)],
         DirectionsCall (build_params [(43, -79), (44, -80), (43, -79)])]) \<and>
   [utsc_detail, cafe_detail, utsc_detail] =
     (if True then snd ([(43 :: real, -79 :: real), (44, -80)], [utsc_detail, cafe_detail]) @
                     [hd (snd ([(43 :: real, -79 :: real), (44, -80)], [utsc_detail, cafe_detail]))]
      else snd ([(43 :: real, -79 :: real), (44, -80)], [utsc_detail, cafe_detail]))"
  by (rule directions_failure_keeps_waypoints
        [where p = "demo_parsed demo_wps True" and wps = demo_wps and rt = True
           and st = "([(43, -79), (44, -80)], [utsc_detail, cafe_detail])"
           and cs = "[(43, -79), (44, -80), (43, -79)]"
           and tr = demo_trace])
     (simp_all add: demo_loop, simp_all add: demo_env_def demo_parsed_def demo_wps_def
        handle_round_trip_def no_route_resp_def)

text \<open>
  C10. When the directions service answers \<open>OK\<close> with a route whose overview polyline
  is the empty string, the pipeline treats the run as a failed directions request: it
  returns the outcome with the resolved waypoints, no polyline, no instructions, no legs
  and the notes \<open>Directions request failed. Please try again.\<close>; the instructions and
  leg summaries that the compiler extracted from the response are dropped.
\<close>

theorem empty_polyline_is_directions_failure:
  assumes ex: "llm e user_prompt = Some p"
    and wps: "p_waypoints p = Some wps" "wps \<noteq> []"
    and rt: "(case p_round_trip p of Some b \<Rightarrow> b | None \<Rightarrow> False) = rt"
    and loop: "resolve_loop e rt 0 wps ([], []) [LLMCall user_prompt] = (Next st, tr)"
    and hrt: "handle_round_trip rt st = Inr (cs, ds)"
    and two: "2 \<le> length cs"
    and ok: "d_status (directions_api e (build_params cs)) = ''OK''"
    and routes: "d_routes (directions_api e (build_params cs)) = r # rs"
    and empty: "overview_polyline_points r = []"
  shows "get_directions_with_waypoints e cs tr =
           (Inr (Some [], legs_loop (route_legs r) ([], [])),
            tr @ [CompileCall cs, DirectionsCall (build_params cs)]) \<and>
         process_user_prompt e user_prompt =
           (Inr \<lparr>o_polyline = None, o_instructions = [], o_waypoints = ds,
                 o_round_trip = rt,
                 o_notes = ''Directions request failed. Please try again.'',
                 o_legs = None\<rparr>,
            tr @ [CompileCall cs, DirectionsCall (build_params cs)])"
proof -
  have run: "process_user_prompt e user_prompt =
      build_route e rt (case p_extra_notes p of Some n \<Rightarrow> n | None \<Rightarrow> []) st tr"
    using process_user_prompt_after_loop [OF ex wps rt loop] by simp
  have dir: "get_directions_with_waypoints e cs tr =
      (Inr (Some [], legs_loop (route_legs r) ([], [])),
       tr @ [CompileCall cs, DirectionsCall (build_params cs)])"
    using two ok routes empty
    by (simp add: get_directions_with_waypoints_def Let_def split: prod.splits)
  from run dir hrt two show ?thesis
    by (simp add: build_route_def split: prod.splits)
qed

theorem empty_polyline_is_directions_failure_witness:
  "get_directions_with_waypoints (demo_env (Some (demo_parsed demo_wps False)) empty_polyline_resp)
     [(43, -79), (44, -80)] demo_trace =
     (Inr (Some [],
           legs_loop (route_legs (demo_route\<lparr>overview_polyline_points := []\<rparr>)) ([], [])),
      demo_trace @
        [CompileCall [(43, -79), (44, -80)], DirectionsCall (build_params [(43, -79), (44, -80)])]) \<and>
   process_user_prompt (demo_env (Some (demo_parsed demo_wps False)) empty_polyline_resp) ''go'' =
     (Inr \<lparr>o_polyline = None, o_instructions = [],
           o_waypoints = [utsc_detail, cafe_detail],
           o_round_trip = False,
           o_notes = ''Directions request failed. Please try again.'',
           o_legs = None\<rparr>,
      demo_trace @
        [CompileCall [(43, -79), (44, -80)], DirectionsCall (build_params [(43, -79), (44, -80)])])"
  by (rule empty_polyline_is_directions_failure
        [where p = "demo_parsed demo_wps False" and wps = demo_wps and rt = False
           and st = "([(43, -79), (44, -80)], [utsc_detail, cafe_detail])"
           and rs = "[]"])
     (simp_all add: demo_loop, simp_all add: demo_env_def demo_parsed_def demo_wps_def
        handle_round_trip_def empty_polyline_resp_def)

section \<open>A successful directions response\<close>

lemma steps_loop_eq: "steps_loop sts ins = ins @ map format_step sts"
  by (induction sts arbitrary: ins) simp_all

lemma legs_loop_eq:
  "legs_loop lgs (ins, meta) =
     (ins @ concat (map (\<lambda>lg. map format_step (steps lg)) lgs),
      meta @ map (\<lambda>lg. \<lparr>distance = leg_distance_text lg, duration = leg_duration_text lg\<rparr>) lgs)"
  by (induction lgs arbitrary: ins meta) (simp_all add: steps_loop_eq)

lemma match_tag_no_open: "CHR ''<'' \<noteq> c \<Longrightarrow> match_tag (c # cs) = None"
  by (cases cs) auto

lemma re_sub_tags_text: "CHR ''<'' \<notin> set t \<Longrightarrow> re_sub_tags (t @ s) = t @ re_sub_tags s"
  by (induction t) (simp_all add: match_tag_no_open)

lemma match_rest_tag:
  "CHR ''<'' \<notin> set n \<Longrightarrow> CHR ''>'' \<notin> set n \<Longrightarrow> match_rest (n @ CHR ''>'' # s) = Some s"
  by (induction n) auto

lemma re_sub_tags_tag:
  assumes "n \<noteq> []" and "CHR ''<'' \<notin> set n" and "CHR ''>'' \<notin> set n"
  shows "re_sub_tags (''<'' @ n @ ''>'' @ s) = re_sub_tags s"
proof -
  from assms obtain b n' where n: "n = b # n'" by (cases n) auto
  with assms have "match_tag (CHR ''<'' # b # (n' @ CHR ''>'' # s)) = Some s"
    by (auto simp: match_rest_tag)
  with n show ?thesis by simp
qed

lemma re_sub_tags_render: "wf_markup ms \<Longrightarrow> re_sub_tags (render ms) = plain_text ms"
proof (induction ms rule: wf_markup.induct)
  case 1
  then show ?case by simp
next
  case (2 t ms)
  then show ?case by (simp add: re_sub_tags_text)
next
  case (3 n ms)
  then have "re_sub_tags (''<'' @ n @ ''>'' @ render ms) = re_sub_tags (render ms)"
    by (intro re_sub_tags_tag) simp_all
  with 3 show ?case by simp
qed

text \<open>
  C8. When the directions service answers \<open>OK\<close> with a route that has a polyline, the
  outcome's instructions are one list: the steps of the first leg in their order, then
  those of the second leg, and so on; each entry is the step's instruction text after
  the substitution that removes tags, a space, and the step's distance text in
  parentheses. The outcome has one leg summary (distance text, duration text) per leg,
  in the order of the legs. On well-formed markup the substitution removes exactly the
  tags and leaves the plain text.
\<close>

theorem directions_success_instructions:
  assumes ex: "llm e user_prompt = Some p"
    and wps: "p_waypoints p = Some wps" "wps \<noteq> []"
    and rt: "(case p_round_trip p of Some b \<Rightarrow> b | None \<Rightarrow> False) = rt"
    and loop: "resolve_loop e rt 0 wps ([], []) [LLMCall user_prompt] = (Next st, tr)"
    and hrt: "handle_round_trip rt st = Inr (cs, ds)"
    and two: "2 \<le> length cs"
    and ok: "d_status (directions_api e (build_params cs)) = ''OK''"
    and routes: "d_routes (directions_api e (build_params cs)) = r # rs"
    and poly: "overview_polyline_points r \<noteq> []"
  shows "process_user_prompt e user_prompt =
           (Inr \<lparr>o_polyline = Some (overview_polyline_points r),
                 o_instructions =
                   concat (map (\<lambda>lg.
                       map (\<lambda>st. re_sub_tags (html_instructions st) @ '' ('' @
                                  step_distance_text st @ '')'')
                         (steps lg))
                     (route_legs r)),
                 o_waypoints = ds,
                 o_round_trip = rt,
                 o_notes = (case p_extra_notes p of Some n \<Rightarrow> n | None \<Rightarrow> []),
                 o_legs =
                   Some (map (\<lambda>lg. \<lparr>distance = leg_distance_text lg,
                                      duration = leg_duration_text lg\<rparr>)
                           (route_legs r))\<rparr>,
            tr @ [CompileCall cs, DirectionsCall (build_params cs)]) \<and>
         (\<forall>ms. wf_markup ms \<longrightarrow> re_sub_tags (render ms) = plain_text ms)"
proof -
  have run: "process_user_prompt e user_prompt =
      build_route e rt (case p_extra_notes p of Some n \<Rightarrow> n | None \<Rightarrow> []) st tr"
    using process_user_prompt_after_loop [OF ex wps rt loop] by simp
  have fmt: "format_step = (\<lambda>st. re_sub_tags (html_instructions st) @ '' ('' @
      step_distance_text st @ '')'')"
    by (rule ext) (simp add: format_step_def)
  have dir: "get_directions_with_waypoints e cs tr =
      (Inr (Some (overview_polyline_points r),
            concat (map (\<lambda>lg. map format_step (steps lg)) (route_legs r)),
            map (\<lambda>lg. \<lparr>distance = leg_distance_text lg, duration = leg_duration_text lg\<rparr>)
              (route_legs r)),
       tr @ [CompileCall cs, DirectionsCall (build_params cs)])"
    using two ok routes
    by (simp add: get_directions_with_waypoints_def Let_def legs_loop_eq)
  from run dir hrt two poly have "process_user_prompt e user_prompt =
      (Inr \<lparr>o_polyline = Some (overview_polyline_points r),
            o_instructions = concat (map (\<lambda>lg. map format_step (steps lg)) (route_legs r)),
            o_waypoints = ds, o_round_trip = rt,
            o_notes = (case p_extra_notes p of Some n \<Rightarrow> n | None \<Rightarrow> []),
            o_legs = Some (map (\<lambda>lg. \<lparr>distance = leg_distance_text lg,
                                        duration = leg_duration_text lg\<rparr>) (route_legs r))\<rparr>,
       tr @ [CompileCall cs, DirectionsCall (build_params cs)])"
    by (simp add: build_route_def)
  then show ?thesis
    unfolding fmt by (simp add: re_sub_tags_render)
qed

theorem directions_success_instructions_witness:
  "process_user_prompt (demo_env (Some (demo_parsed demo_wps False)) ok_resp) ''go'' =
     (Inr \<lparr>o_polyline = Some ''abc'',
           o_instructions = [''Head north (0.5 km)'', ''Turn left (0.4 km)'', ''Go back (3 km)''],
           o_waypoints = [utsc_detail, cafe_detail],
           o_round_trip = False,
           o_notes = ''as asked'',
           o_legs = Some [\<lparr>distance = ''1 km'', duration = ''2 mins''\<rparr>,
                          \<lparr>distance = ''3 km'', duration = ''5 mins''\<rparr>]\<rparr>,
      demo_trace @
        [CompileCall [(43, -79), (44, -80)], DirectionsCall (build_params [(43, -79), (44, -80)])]) \<and>
   wf_markup [Text ''Head '', Tag ''b'', Text ''north'', Tag ''/b''] \<and>
   re_sub_tags (render [Text ''Head '', Tag ''b'', Text ''north'', Tag ''/b'']) =
     plain_text [Text ''Head '', Tag ''b'', Text ''north'', Tag ''/b'']"
proof -
  let ?e = "demo_env (Some (demo_parsed demo_wps False)) ok_resp"
  let ?ms = "[Text ''Head '', Tag ''b'', Text ''north'', Tag ''/b'']"
  have hrt: "handle_round_trip False ([(43, -79), (44, -80)], [utsc_detail, cafe_detail]) =
      Inr ([(43, -79), (44, -80)], [utsc_detail, cafe_detail])"
    by (simp add: handle_round_trip_def)
  have wf: "wf_markup ?ms" by simp
  note T = directions_success_instructions
    [of ?e "''go''" "demo_parsed demo_wps False" demo_wps False
        "([(43, -79), (44, -80)], [utsc_detail, cafe_detail])" demo_trace
        "[(43, -79), (44, -80)]" "[utsc_detail, cafe_detail]" demo_route "[]",
     OF _ _ _ _ demo_loop hrt]
  have "process_user_prompt ?e ''go'' =
     (Inr \<lparr>o_polyline = Some (overview_polyline_points demo_route),
           o_instructions =
             concat (map (\<lambda>lg.
                 map (\<lambda>st. re_sub_tags (html_instructions st) @ '' ('' @
                            step_distance_text st @ '')'')
                   (steps lg))
               (route_legs demo_route)),
           o_waypoints = [utsc_detail, cafe_detail],
           o_round_trip = False,
           o_notes = (case p_extra_notes (demo_parsed demo_wps False) of Some n \<Rightarrow> n | None \<Rightarrow> []),
           o_legs =
             Some (map (\<lambda>lg. \<lparr>distance = leg_distance_text lg, duration = leg_duration_text lg\<rparr>)
                     (route_legs demo_route))\<rparr>,
      demo_trace @
        [CompileCall [(43, -79), (44, -80)], DirectionsCall (build_params [(43, -79), (44, -80)])]) \<and>
     (\<forall>ms. wf_markup ms \<longrightarrow> re_sub_tags (render ms) = plain_text ms)"
    by (rule T)
       (simp_all add: demo_env_def demo_parsed_def demo_wps_def ok_resp_def demo_route_def)
  with wf show ?thesis
    by (simp add: demo_route_def demo_parsed_def)
qed

section \<open>Waypoints of an unknown kind\<close>

lemma resolve_step_index:
  "0 < i \<Longrightarrow> 0 < j \<Longrightarrow> resolve_step e rt i wp st tr = resolve_step e rt j wp st tr"
  by (cases st) (simp add: resolve_step_def split: option.splits)

lemma resolve_loop_index:
  "0 < i \<Longrightarrow> 0 < j \<Longrightarrow> resolve_loop e rt i wps st tr = resolve_loop e rt j wps st tr"
proof (induction wps arbitrary: i j st tr)
  case Nil
  then show ?case by simp
next
  case (Cons wp rest)
  from Cons.prems have "resolve_step e rt i wp st tr = resolve_step e rt j wp st tr"
    by (rule resolve_step_index)
  moreover have "resolve_loop e rt (Suc i) rest st' tr' = resolve_loop e rt (Suc j) rest st' tr'"
    for st' tr'
    by (rule Cons.IH) simp_all
  ultimately show ?case by (simp split: prod.splits flow.splits)
qed

lemma resolve_step_unknown:
  assumes "wp ''type'' = Some k" and "k \<noteq> ''address''" and "k \<noteq> ''place_type''"
    and "wp ''value'' = Some v"
  shows "resolve_step e rt i wp st tr = (Next st, tr)"
  using assms by (cases st) (simp add: resolve_step_def)

text \<open>
  With an unknown first waypoint, a following place type is met at position 1 with an
  empty list of coordinates: the run ends with the message about the missing origin and
  the extractor's \<open>round_trip\<close> flag. Without that first waypoint, the place type is at
  position 0 and the run ends with the message about the first waypoint, and
  \<open>round_trip\<close> false.
\<close>

theorem unknown_kind_first_counterexample:
  "resolve_loop (demo_env None ok_resp) True 0
     [wp_entry ''landmark'' ''CN Tower'', wp_entry ''place_type'' ''coffee shop''] ([], []) [] =
     (Return (terminal True
        ''No origin available for place search. Please specify an address first.''), []) \<and>
   resolve_loop (demo_env None ok_resp) True 0
     [wp_entry ''place_type'' ''coffee shop''] ([], []) [] =
     (Return (terminal False
        ''Your first waypoint is a place type, but no origin was provided.''), []) \<and>
   resolve_loop (demo_env None ok_resp) True 0
     [wp_entry ''landmark'' ''CN Tower'', wp_entry ''place_type'' ''coffee shop''] ([], []) [] \<noteq>
   resolve_loop (demo_env None ok_resp) True 0
     [wp_entry ''place_type'' ''coffee shop''] ([], []) []"
  by (simp add: wp_entry_def resolve_step_def terminal_def)

text \<open>
  C9 (as amended). A waypoint that has a type and a value, and whose type is neither
  \<open>address\<close> nor \<open>place_type\<close>, is passed over by the loop: the pass leaves both lists
  and the trace as they are, and the loop goes on with the waypoints after it, which keep
  their positions. When it is not the first waypoint, the run of the loop is the run
  without it.
\<close>

theorem unknown_kind_is_skipped:
  assumes kind: "wp ''type'' = Some k" "k \<noteq> ''address''" "k \<noteq> ''place_type''"
    and val: "wp ''value'' = Some v"
  shows "resolve_step e rt i wp st tr = (Next st, tr) \<and>
         resolve_loop e rt i (wp # rest) st tr = resolve_loop e rt (Suc i) rest st tr \<and>
         (pre \<noteq> [] \<longrightarrow>
            resolve_loop e rt 0 (pre @ wp # post) st0 tr0 =
            resolve_loop e rt 0 (pre @ post) st0 tr0)"
proof (intro conjI impI)
  show step: "resolve_step e rt i wp st tr = (Next st, tr)"
    using kind val by (rule resolve_step_unknown)
  then show "resolve_loop e rt i (wp # rest) st tr = resolve_loop e rt (Suc i) rest st tr"
    by simp
next
  assume "pre \<noteq> []"
  then have pos: "0 < length pre" by simp
  have "resolve_loop e rt (length pre) (wp # post) st' tr' =
      resolve_loop e rt (length pre) post st' tr'" for st' tr'
  proof -
    have "resolve_loop e rt (length pre) (wp # post) st' tr' =
        resolve_loop e rt (Suc (length pre)) post st' tr'"
      using resolve_step_unknown [OF kind val, of e rt "length pre" st' tr'] by simp
    also have "\<dots> = resolve_loop e rt (length pre) post st' tr'"
      using pos by (intro resolve_loop_index) simp_all
    finally show ?thesis .
  qed
  then show "resolve_loop e rt 0 (pre @ wp # post) st0 tr0 =
      resolve_loop e rt 0 (pre @ post) st0 tr0"
    by (simp add: resolve_loop_append split: prod.splits flow.splits)
qed

theorem unknown_kind_is_skipped_witness:
  "resolve_step (demo_env None ok_resp) False 1 (wp_entry ''landmark'' ''CN Tower'')
     ([(43, -79)], [utsc_detail]) [LLMCall ''go''] =
     (Next ([(43, -79)], [utsc_detail]), [LLMCall ''go'']) \<and>
   resolve_loop (demo_env None ok_resp) False 1
     (wp_entry ''landmark'' ''CN Tower'' # [wp_entry ''place_type'' ''coffee shop''])
     ([(43, -79)], [utsc_detail]) [LLMCall ''go''] =
   resolve_loop (demo_env None ok_resp) False (Suc 1) [wp_entry ''place_type'' ''coffee shop'']
     ([(43, -79)], [utsc_detail]) [LLMCall ''go''] \<and>
   [wp_entry ''address'' ''UTSC''] \<noteq> [] \<and>
   resolve_loop (demo_env None ok_resp) False 0
     ([wp_entry ''address'' ''UTSC''] @ wp_entry ''landmark'' ''CN Tower'' #
        [wp_entry ''place_type'' ''coffee shop'']) ([], []) [LLMCall ''go''] =
   resolve_loop (demo_env None ok_resp) False 0
     ([wp_entry ''address'' ''UTSC''] @ [wp_entry ''place_type'' ''coffee shop''])
     ([], []) [LLMCall ''go'']"
proof -
  have ne: "[wp_entry ''address'' ''UTSC''] \<noteq> []" by simp
  have k: "wp_entry ''landmark'' ''CN Tower'' ''type'' = Some ''landmark''"
    "''landmark'' \<noteq> ''address''" "''landmark'' \<noteq> ''place_type''"
    "wp_entry ''landmark'' ''CN Tower'' ''value'' = Some ''CN Tower''"
    by (simp_all add: wp_entry_def)
  from unknown_kind_is_skipped
    [OF k, of "demo_env None ok_resp" False 1 "([(43, -79)], [utsc_detail])" "[LLMCall ''go'']"
       "[wp_entry ''place_type'' ''coffee shop'']" "[wp_entry ''address'' ''UTSC'']"
       "[wp_entry ''place_type'' ''coffee shop'']" "([], [])" "[LLMCall ''go'']"] ne
  show ?thesis by blast
qed

section \<open>What reaches the caller\<close>

text \<open>The shape of every outcome without a route that the loop returns.\<close>

lemma failure_notes_terminal:
  "failure_notes ''I couldn't parse any valid stops from your request.''"
  "failure_notes ''Your first waypoint is a place type, but no origin was provided.''"
  "failure_notes ''No origin available for place search. Please specify an address first.''"
  "failure_notes ''Not enough waypoints to create a route.''"
  "failure_notes ''Directions request failed. Please try again.''"
  "failure_notes (''Could not geocode address: '' @ v)"
  "failure_notes (''Could not find a nearby place for: '' @ v)"
  unfolding failure_notes_def by simp_all

lemmas failure_notes_simps = failure_notes_terminal [simplified]

lemma explained_failure_terminal: "explained_failure (terminal b n) = failure_notes n"
  by (simp add: explained_failure_def terminal_def)

lemma resolve_step_no_raise:
  assumes "wp ''type'' \<noteq> None" and "wp ''value'' \<noteq> None"
    and geo: "\<And>a. g_status (geocode_api e a) = ''OK'' \<Longrightarrow> g_results (geocode_api e a) \<noteq> []"
  shows "no_raise (fst (resolve_step e rt i wp st tr))"
proof -
  obtain cs ds where st: "st = (cs, ds)" by (cases st)
  from assms(1,2) obtain k v where kv: "wp ''type'' = Some k" "wp ''value'' = Some v"
    by auto
  obtain r t1 where g: "geocode_address e v tr = (r, t1)"
    by (cases "geocode_address e v tr")
  have "r \<noteq> Inl err" for err
    using g geo [of v]
    by (auto simp: geocode_address_def Let_def split: list.splits if_splits)
  then obtain ro where ro: "r = Inr ro"
    by (cases r) auto
  show ?thesis
  proof (cases ro)
    case None
    with g ro show ?thesis
      unfolding resolve_step_def st kv
      by (simp add: explained_failure_terminal failure_notes_simps
          split: option.splits prod.splits)
  next
    case (Some loc)
    with g ro show ?thesis
      unfolding resolve_step_def st kv
      by (simp add: explained_failure_terminal failure_notes_simps
          split: option.splits prod.splits)
  qed
qed

lemma resolve_loop_no_raise:
  assumes geo: "\<And>a. g_status (geocode_api e a) = ''OK'' \<Longrightarrow> g_results (geocode_api e a) \<noteq> []"
  shows "\<forall>wp \<in> set wps. wp ''type'' \<noteq> None \<and> wp ''value'' \<noteq> None \<Longrightarrow>
     no_raise (fst (resolve_loop e rt i wps st tr))"
proof (induction wps arbitrary: i st tr)
  case Nil
  then show ?case by simp
next
  case (Cons wp rest)
  obtain fl1 tr1 where step: "resolve_step e rt i wp st tr = (fl1, tr1)"
    by (cases "resolve_step e rt i wp st tr")
  from Cons.prems have wp: "wp ''type'' \<noteq> None" "wp ''value'' \<noteq> None" by simp_all
  from resolve_step_no_raise [OF wp geo, of rt i st tr] step have fl1: "no_raise fl1" by simp
  show ?case
  proof (cases fl1)
    case (Next st1)
    from Cons.IH [of "Suc i" st1 tr1] Cons.prems
    have "no_raise (fst (resolve_loop e rt (Suc i) rest st1 tr1))" by simp
    with step Next show ?thesis by simp
  next
    case (Raise err)
    with fl1 show ?thesis by simp
  next
    case (Return out)
    with fl1 step show ?thesis by simp
  qed
qed

lemma handle_round_trip_after_loop:
  assumes "resolve_loop e rt i wps ([], []) tr = (Next st, tr')"
  shows "\<exists>cs ds. handle_round_trip b st = Inr (cs, ds)"
proof -
  obtain cs ds where st: "st = (cs, ds)" by (cases st)
  from resolve_loop_Next [OF assms [unfolded st]]
  have "length cs = length ds" by auto
  then show ?thesis
    unfolding st by (cases cs; cases ds) (simp_all add: handle_round_trip_def)
qed

lemma build_route_no_raise:
  assumes dir: "\<And>ps. d_status (directions_api e ps) = ''OK'' \<Longrightarrow> d_routes (directions_api e ps) \<noteq> []"
    and hrt: "handle_round_trip rt st = Inr (cs, ds)"
  shows "\<exists>out tr'. build_route e rt n st tr = (Inr out, tr') \<and>
     (o_polyline out = None \<longrightarrow>
        o_instructions out = [] \<and> o_legs out = None \<and> failure_notes (o_notes out))"
proof (cases "length cs < 2")
  case True
  with hrt show ?thesis
    by (simp add: build_route_def terminal_def failure_notes_terminal)
next
  case False
  obtain r tr' where g: "get_directions_with_waypoints e cs tr = (r, tr')"
    by (cases "get_directions_with_waypoints e cs tr")
  have "r \<noteq> Inl err" for err
    using g dir [of "build_params cs"]
    by (auto simp: get_directions_with_waypoints_def Let_def split: if_splits list.splits prod.splits)
  then obtain poly ins lgs where r: "r = Inr (poly, ins, lgs)"
    by (cases r) auto
  from hrt False g r show ?thesis
    by (auto simp: build_route_def failure_notes_terminal)
qed

text \<open>
  On a decoded record whose waypoint entries all have both fields, nothing is raised.
\<close>

lemma decoded_output_gives_outcome:
  assumes entries: "\<And>p wps. llm e user_prompt = Some p \<Longrightarrow> p_waypoints p = Some wps \<Longrightarrow>
      \<forall>wp \<in> set wps. wp ''type'' \<noteq> None \<and> wp ''value'' \<noteq> None"
    and geo: "\<And>a. g_status (geocode_api e a) = ''OK'' \<Longrightarrow> g_results (geocode_api e a) \<noteq> []"
    and dir: "\<And>ps. d_status (directions_api e ps) = ''OK'' \<Longrightarrow> d_routes (directions_api e ps) \<noteq> []"
  shows "\<exists>out tr. process_user_prompt e user_prompt = (Inr out, tr) \<and>
     (o_polyline out = None \<longrightarrow>
        o_instructions out = [] \<and> o_legs out = None \<and> failure_notes (o_notes out))"
proof -
  obtain p tr0 where ex: "extract_waypoints e user_prompt [] = (p, tr0)"
    by (cases "extract_waypoints e user_prompt []")
  define wps where "wps = (case p_waypoints p of Some w \<Rightarrow> w | None \<Rightarrow> [])"
  define rt where "rt = (case p_round_trip p of Some b \<Rightarrow> b | None \<Rightarrow> False)"
  define n where "n = (case p_extra_notes p of Some n \<Rightarrow> n | None \<Rightarrow> [])"
  have ok: "\<forall>wp \<in> set wps. wp ''type'' \<noteq> None \<and> wp ''value'' \<noteq> None"
  proof (cases "llm e user_prompt")
    case None
    with ex show ?thesis
      by (auto simp: extract_waypoints_def default_parsed_def wps_def)
  next
    case (Some q)
    with ex have "q = p" by (simp add: extract_waypoints_def)
    with Some entries [of p] show ?thesis
      by (cases "p_waypoints p") (simp_all add: wps_def)
  qed
  obtain fl tr where loop: "resolve_loop e rt 0 wps ([], []) tr0 = (fl, tr)"
    by (cases "resolve_loop e rt 0 wps ([], []) tr0")
  have run: "process_user_prompt e user_prompt =
      (if wps = [] then (Inr (terminal False ''I couldn't parse any valid stops from your request.''), tr0)
       else case fl of Raise err \<Rightarrow> (Inl err, tr) | Return out \<Rightarrow> (Inr out, tr)
            | Next st \<Rightarrow> build_route e rt n st tr)"
    using ex loop unfolding wps_def rt_def n_def
    by (simp add: process_user_prompt_def split: flow.splits)
  show ?thesis
  proof (cases "wps = []")
    case True
    with run show ?thesis by (simp add: terminal_def failure_notes_terminal)
  next
    case False
    from resolve_loop_no_raise [OF geo ok, of rt 0 "([], [])" tr0] loop
    have fine: "no_raise fl" by simp
    show ?thesis
    proof (cases fl)
      case (Next st)
      from handle_round_trip_after_loop [OF loop [unfolded Next], of rt]
      obtain cs ds where "handle_round_trip rt st = Inr (cs, ds)" by blast
      from build_route_no_raise [OF dir this, of n tr] run False Next show ?thesis by simp
    next
      case (Raise err)
      with fine show ?thesis by simp
    next
      case (Return out)
      with fine run False show ?thesis by (simp add: explained_failure_def)
    qed
  qed
qed

subsection \<open>Undecoded output\<close>



lemma resolve_step_json_entry:
  "is_entry wp \<Longrightarrow>
     resolve_step_json e (JBool rt) i wp st tr = Some (resolve_step e rt i (wp_of wp) st tr)"
  by (cases wp) (auto simp: resolve_step_json_def split: option.splits json.splits)

lemma resolve_loop_json_entries:
  "list_all is_entry es \<Longrightarrow>
     resolve_loop_json e (JBool rt) i es st tr = Some (resolve_loop e rt i (map wp_of es) st tr)"
proof (induction es arbitrary: i st tr)
  case Nil
  then show ?case by simp
next
  case (Cons wp rest)
  then have "resolve_step_json e (JBool rt) i wp st tr =
      Some (resolve_step e rt i (wp_of wp) st tr)"
    by (simp add: resolve_step_json_entry)
  moreover have "resolve_loop_json e (JBool rt) (Suc i) rest st' tr' =
      Some (resolve_loop e rt (Suc i) (map wp_of rest) st' tr')" for st' tr'
    using Cons by simp
  ultimately show ?case
    by (simp split: prod.splits flow.splits)
qed

text \<open>
  On output of the documented shape, the run on the undecoded value is the run on the
  decoded record.
\<close>

lemma process_user_prompt_json_entries:
  assumes raw: "raw user_prompt = Some (JObj fs)" and conf: "conforming (JObj fs)"
    and wps: "dict_get fs ''waypoints'' = Some (JArr es)" and ne: "es \<noteq> []"
  shows "process_user_prompt_json raw e user_prompt =
           Some (case resolve_loop e
                        (case p_round_trip (decode (JObj fs)) of Some b \<Rightarrow> b | None \<Rightarrow> False)
                        0 (map wp_of es) ([], []) [LLMCall user_prompt] of
                   (Raise err, tr') \<Rightarrow> (Inl err, tr')
                 | (Return out, tr') \<Rightarrow> (Inr out, tr')
                 | (Next st, tr') \<Rightarrow>
                     build_route e
                       (case p_round_trip (decode (JObj fs)) of Some b \<Rightarrow> b | None \<Rightarrow> False)
                       (case p_extra_notes (decode (JObj fs)) of Some n \<Rightarrow> n | None \<Rightarrow> [])
                       st tr')"
proof -
  define rt where "rt = (case p_round_trip (decode (JObj fs)) of Some b \<Rightarrow> b | None \<Rightarrow> False)"
  define n where "n = (case p_extra_notes (decode (JObj fs)) of Some n \<Rightarrow> n | None \<Rightarrow> [])"
  from conf have r: "(case dict_get fs ''round_trip'' of Some b \<Rightarrow> b | None \<Rightarrow> JBool False) = JBool rt"
    unfolding rt_def decode_def by (auto split: option.splits json.splits)
  from conf have nt: "(case dict_get fs ''extra_notes'' of Some n \<Rightarrow> n | None \<Rightarrow> JStr []) = JStr n"
    unfolding n_def decode_def by (auto split: option.splits json.splits)
  from conf wps have es: "list_all is_entry es" by simp
  show ?thesis
    unfolding rt_def [symmetric] n_def [symmetric]
    using raw wps ne r nt resolve_loop_json_entries [OF es, of e rt 0 "([], [])" "[LLMCall user_prompt]"]
    by (simp add: process_user_prompt_json_def extract_waypoints_json_def
        split: prod.splits flow.splits)
qed

lemma process_user_prompt_json_decode:
  assumes raw: "raw user_prompt = Some j" and conf: "conforming j"
    and llm: "llm e user_prompt = Some (decode j)"
  shows "process_user_prompt_json raw e user_prompt = Some (process_user_prompt e user_prompt)"
proof -
  from conf obtain fs where j: "j = JObj fs" by (cases j) auto
  show ?thesis
  proof (cases "dict_get fs ''waypoints''")
    case None
    with raw llm j show ?thesis
      by (simp add: process_user_prompt_json_def extract_waypoints_json_def
          process_user_prompt_def extract_waypoints_def decode_def)
  next
    case (Some w)
    with conf j obtain es where w: "w = JArr es"
      by (cases w) auto
    have pw: "p_waypoints (decode j) = Some (map wp_of es)"
      unfolding j decode_def using Some w by simp
    show ?thesis
    proof (cases "es = []")
      case True
      with raw llm j Some w pw show ?thesis
        by (simp add: process_user_prompt_json_def extract_waypoints_json_def
            process_user_prompt_def extract_waypoints_def)
    next
      case False
      have "process_user_prompt e user_prompt =
          (case resolve_loop e
                  (case p_round_trip (decode (JObj fs)) of Some b \<Rightarrow> b | None \<Rightarrow> False)
                  0 (map wp_of es) ([], []) [LLMCall user_prompt] of
             (Raise err, tr') \<Rightarrow> (Inl err, tr')
           | (Return out, tr') \<Rightarrow> (Inr out, tr')
           | (Next st, tr') \<Rightarrow>
               build_route e
                 (case p_round_trip (decode (JObj fs)) of Some b \<Rightarrow> b | None \<Rightarrow> False)
                 (case p_extra_notes (decode (JObj fs)) of Some n \<Rightarrow> n | None \<Rightarrow> [])
                 st tr')"
        using llm pw False unfolding j
        by (simp add: process_user_prompt_def extract_waypoints_def
            split: prod.splits flow.splits)
      with process_user_prompt_json_entries [of raw user_prompt fs es e] raw conf Some False
      show ?thesis by (simp add: j w)
    qed
  qed
qed







end
